theory Spec2Isabelle
  imports Complex_Main "HOL-Library.Multiset" "HOL-Library.AList" "HOL-Library.Log_Nat"
begin

section \<open>Faults\<close>

text \<open>
  A Python exception is a value. An operation that mutates an object returns the fault
  (if any) paired with the object as it is when the operation ends, because the
  mutations made before a \<^verbatim>\<open>raise\<close> stay in place.
\<close>

datatype error =
    RuntimeError | NotImplementedError | TypeError | ValueError
  | KeyError | IndexError | AttributeError

section \<open>Arrays\<close>

text \<open>
  A two-dimensional numpy array is the list of its rows (axis 0 is the outer list,
  axis 1 the samples). The scores and the points of a match are \<^verbatim>\<open>int64\<close> arrays,
  whose arithmetic wraps around. The table is made of \<^verbatim>\<open>float64\<close> arrays: its entries
  are integers, held as \<^typ>\<open>int\<close>, and an integer stored there is rounded to 53
  significant bits. The random keys are numbers of \<open>[0, 1)\<close>, held as \<^typ>\<open>rat\<close>.
\<close>

definition wrap64 :: "int \<Rightarrow> int" where
  "wrap64 x = (x + 2 ^ 63) mod 2 ^ 64 - 2 ^ 63"

text \<open>
  The \<^verbatim>\<open>float64\<close> nearest to an integer, ties to the even significand: the integer
  itself below \<open>2 ^ 53\<close> in magnitude, a multiple of \<open>2 ^ e\<close> beyond, where \<open>e\<close> is
  the number of bits in excess of 53.
\<close>

definition float64_of_int :: "int \<Rightarrow> int" where
  "float64_of_int x =
     (if \<bar>x\<bar> < 2 ^ 53 then x
      else
        (let e = nat (bitlen \<bar>x\<bar> - 53);
             q = \<bar>x\<bar> div 2 ^ e;
             r = \<bar>x\<bar> mod 2 ^ e;
             m = (if 2 * r > 2 ^ e \<or> (2 * r = 2 ^ e \<and> odd q) then q + 1 else q)
         in sgn x * (m * 2 ^ e)))"

definition shaped :: "nat \<Rightarrow> nat \<Rightarrow> 'a list list \<Rightarrow> bool" where
  "shaped n S m = (length m = n \<and> list_all (\<lambda>row. length row = S) m)"

definition ncols :: "'a list list \<Rightarrow> nat" where
  "ncols m = (case m of [] \<Rightarrow> 0 | row # _ \<Rightarrow> length row)"

definition column :: "'a list list \<Rightarrow> nat \<Rightarrow> 'a list" where
  "column m s = map (\<lambda>row. row ! s) m"

definition elementwise2 :: "('a \<Rightarrow> 'b \<Rightarrow> 'c) \<Rightarrow> 'a list list \<Rightarrow> 'b list list \<Rightarrow> 'c list list" where
  "elementwise2 f x y = map2 (map2 f) x y"

text \<open>\<^verbatim>\<open>a[mask] = v\<close> with a boolean mask of the shape of \<^verbatim>\<open>a\<close>.\<close>

definition assign_where :: "bool list list \<Rightarrow> 'a \<Rightarrow> 'a list list \<Rightarrow> 'a list list" where
  "assign_where sel v a = elementwise2 (\<lambda>b x. if b then v else x) sel a"

text \<open>\<^verbatim>\<open>a[mask]\<close> with a boolean mask over the rows.\<close>

definition select_rows :: "bool list \<Rightarrow> 'a list \<Rightarrow> 'a list" where
  "select_rows sel rows = map snd (filter fst (zip sel rows))"

text \<open>
  \<^verbatim>\<open>a.sum(axis=0)\<close> of an \<^verbatim>\<open>int64\<close> array with \<open>S\<close> columns (no row gives \<open>S\<close>
  zeros). Every addition wraps around, so the result is the exact sum wrapped, in
  whatever order numpy adds.
\<close>

definition sum_axis0 :: "nat \<Rightarrow> int list list \<Rightarrow> int list" where
  "sum_axis0 S rows = map wrap64 (foldr (map2 (+)) rows (replicate S 0))"

text \<open>
  \<^verbatim>\<open>np.lexsort(keys)\<close> on one-dimensional keys of length \<open>n\<close>: a stable indirect sort by
  each key in turn, the first key first, so that the last key is the primary one. The
  result lists the indices in ascending order of the keys: entry \<open>k\<close> is the index of
  the element that comes \<open>k\<close>-th.
\<close>

definition argsort_stable :: "rat list \<Rightarrow> nat list \<Rightarrow> nat list" where
  "argsort_stable key perm = sort_key (\<lambda>i. key ! i) perm"

definition lexsort :: "rat list list \<Rightarrow> nat \<Rightarrow> nat list" where
  "lexsort keys n = fold argsort_stable keys [0..<n]"

text \<open>\<^verbatim>\<open>np.lexsort(keys, axis=0)\<close> on keys of shape \<open>(n, S)\<close>: each column on its own.\<close>

definition lexsort_axis0 :: "rat list list list \<Rightarrow> nat \<Rightarrow> nat \<Rightarrow> nat list list" where
  "lexsort_axis0 keys n S =
     map (\<lambda>k. map (\<lambda>s. lexsort (map (\<lambda>key. column key s) keys) n ! k) [0..<S]) [0..<n]"

text \<open>\<^verbatim>\<open>np.nonzero(a.T == v)[1]\<close>: row by row of the transpose (sample by sample), the
  indices along axis 0 of the entries equal to \<open>v\<close>.\<close>

definition nonzero_T :: "int list list \<Rightarrow> int \<Rightarrow> nat list" where
  "nonzero_T a v =
     concat (map (\<lambda>s. filter (\<lambda>k. a ! k ! s = v) [0..<length a]) [0..<ncols a])"

text \<open>\<^verbatim>\<open>a[idx]\<close> with an array of indices.\<close>

definition take_indices :: "'a list \<Rightarrow> nat list \<Rightarrow> error + 'a list" where
  "take_indices a idx =
     (if list_all (\<lambda>i. i < length a) idx then Inr (map (\<lambda>i. a ! i) idx) else Inl IndexError)"

section \<open>Group: results, table and standings\<close>

text \<open>
  \<^verbatim>\<open>Group.results\<close> as \<^verbatim>\<open>add_results\<close> stores it: the teams of the \<open>M\<close> matches and
  two score arrays of shape \<open>(M, S)\<close>; \<open>n_samples\<close> is \<^verbatim>\<open>home_score.shape[1]\<close>.
\<close>

record results =
  home_team :: "string list"
  away_team :: "string list"
  home_score :: "int list list"
  away_score :: "int list list"
  n_samples :: nat

definition wf_results :: "results \<Rightarrow> bool" where
  "wf_results r =
     (length (away_team r) = length (home_team r)
      \<and> shaped (length (home_team r)) (n_samples r) (home_score r)
      \<and> shaped (length (home_team r)) (n_samples r) (away_score r))"

record table =
  points :: "int list list"
  goals_for :: "int list list"
  goals_against :: "int list list"
  goal_difference :: "int list list"

record group =
  name :: string
  teams :: "string list"
  table :: "table option"
  standings :: "int list list option"
  results :: "results option"

text \<open>\<^verbatim>\<open>Group.__init__\<close>\<close>

definition Group :: "string \<Rightarrow> string list \<Rightarrow> group" where
  "Group n ts = \<lparr>name = n, teams = ts, table = None, standings = None, results = None\<rparr>"

text \<open>
  One row of the table: the column sums of the team's home rows of one array plus the
  column sums of its away rows of another, added as \<^verbatim>\<open>int64\<close> and stored in the
  \<^verbatim>\<open>float64\<close> table.
\<close>

definition team_row :: "results \<Rightarrow> int list list \<Rightarrow> int list list \<Rightarrow> string \<Rightarrow> int list" where
  "team_row r at_home away team =
     map float64_of_int
       (map2 (\<lambda>x y. wrap64 (x + y))
          (sum_axis0 (n_samples r) (select_rows (map (\<lambda>t. t = team) (home_team r)) at_home))
          (sum_axis0 (n_samples r) (select_rows (map (\<lambda>t. t = team) (away_team r)) away)))"

text \<open>
  \<^verbatim>\<open>Group.calc_table\<close>. Without results, \<^verbatim>\<open>self.results["home_score"]\<close> subscripts
  \<^verbatim>\<open>None\<close>: a TypeError. The arrays are created full of NaN and every row is
  overwritten in the loop over the teams. The goal difference is a difference of two
  \<^verbatim>\<open>float64\<close> rows, rounded like every result of float arithmetic.
\<close>

definition calc_table :: "group \<Rightarrow> error option \<times> group" where
  "calc_table g =
     (case results g of
        None \<Rightarrow> (Some TypeError, g)
      | Some r \<Rightarrow>
         (let draw = elementwise2 (=) (home_score r) (away_score r);
              home_pts = assign_where draw 1
                (elementwise2 (\<lambda>h a. 3 * of_bool (h > a)) (home_score r) (away_score r));
              away_pts = assign_where draw 1
                (elementwise2 (\<lambda>h a. 3 * of_bool (h < a)) (home_score r) (away_score r));
              pts = map (team_row r home_pts away_pts) (teams g);
              gf = map (team_row r (home_score r) (away_score r)) (teams g);
              ga = map (team_row r (away_score r) (home_score r)) (teams g)
          in (None, g\<lparr>table := Some \<lparr>points = pts, goals_for = gf, goals_against = ga,
                                      goal_difference =
                                        elementwise2 (\<lambda>x y. float64_of_int (x - y)) gf ga\<rparr>\<rparr>)))"

text \<open>
  \<^verbatim>\<open>Group.add_results\<close>: the matches whose home team is of the group replace the
  stored results.
\<close>

definition add_results :: "group \<Rightarrow> results \<Rightarrow> group" where
  "add_results g r =
     (let group_mask = map (\<lambda>t. t \<in> set (teams g)) (home_team r)
      in g\<lparr>results := Some
           \<lparr>home_team = select_rows group_mask (home_team r),
            away_team = select_rows group_mask (away_team r),
            home_score = select_rows group_mask (home_score r),
            away_score = select_rows group_mask (away_score r),
            n_samples = n_samples r\<rparr>\<rparr>)"

text \<open>
  \<^verbatim>\<open>Group.calc_standings\<close>. \<open>rnd k s\<close> is entry \<open>(k, s)\<close> of the array that
  \<^verbatim>\<open>np.random.random(size=self.table["points"].shape)\<close> draws.
\<close>

definition random_array :: "(nat \<Rightarrow> nat \<Rightarrow> rat) \<Rightarrow> nat \<Rightarrow> nat \<Rightarrow> rat list list" where
  "random_array rnd n S = map (\<lambda>k. map (rnd k) [0..<S]) [0..<n]"

definition as_float :: "int list list \<Rightarrow> rat list list" where
  "as_float a = map (map of_int) a"

definition default_standings :: "nat \<Rightarrow> table \<Rightarrow> (nat \<Rightarrow> nat \<Rightarrow> rat) \<Rightarrow> int list list" where
  "default_standings n_teams t rnd =
     (let n = length (points t); S = ncols (points t)
      in map (map (\<lambda>i. int n_teams - int i))
           (lexsort_axis0
              [random_array rnd n S, as_float (goals_for t), as_float (goal_difference t),
               as_float (points t)] n S))"

definition calc_standings :: "group \<Rightarrow> bool \<Rightarrow> (nat \<Rightarrow> nat \<Rightarrow> rat) \<Rightarrow> error option \<times> group" where
  "calc_standings g head_to_head rnd =
     (case (if table g = None then calc_table g else (None, g)) of
        (Some e, g1) \<Rightarrow> (Some e, g1)
      | (None, g1) \<Rightarrow>
         (case table g1 of
            None \<Rightarrow> (Some TypeError, g1)
          | Some t \<Rightarrow>
             if \<not> head_to_head
             then (None, g1\<lparr>standings := Some (default_standings (length (teams g1)) t rnd)\<rparr>)
             else (Some NotImplementedError, g1)))"

text \<open>\<^verbatim>\<open>Group.get_qualifiers\<close>\<close>

definition get_qualifiers ::
  "group \<Rightarrow> (nat \<Rightarrow> nat \<Rightarrow> rat) \<Rightarrow> (error + string list \<times> string list) \<times> group" where
  "get_qualifiers g rnd =
     (case (if standings g = None then calc_standings g False rnd else (None, g)) of
        (Some e, g1) \<Rightarrow> (Inl e, g1)
      | (None, g1) \<Rightarrow>
         (case standings g1 of
            None \<Rightarrow> (Inl AttributeError, g1)
          | Some st \<Rightarrow>
             (case take_indices (teams g1) (nonzero_T st 1) of
                Inl e \<Rightarrow> (Inl e, g1)
              | Inr first \<Rightarrow>
                 (case take_indices (teams g1) (nonzero_T st 2) of
                    Inl e \<Rightarrow> (Inl e, g1)
                  | Inr second \<Rightarrow> (Inr (first, second), g1)))))"


section \<open>Group: the head-to-head cascade\<close>

text \<open>
  The cascade (\<^verbatim>\<open>fill_standings_position\<close>, \<^verbatim>\<open>find_head_to_head_winner\<close>,
  \<^verbatim>\<open>set_positions_using_metric\<close>) reads the attributes of the group in the
  dictionary form that the comments of \<^verbatim>\<open>Group.__init__\<close> describe: the standings
  map "1st" .. "4th" to a team name or \<^verbatim>\<open>None\<close>, the table maps a team to its
  values of the metrics, the results are a list of dictionaries from the two teams of a
  match to their scores. \<open>shuffles\<close> counts the calls of \<^verbatim>\<open>random.shuffle\<close> made so far.
\<close>

record cascade =
  standings_dict :: "string \<rightharpoonup> string option"
  table_dict :: "string \<rightharpoonup> (string \<rightharpoonup> int)"
  results_list :: "(string \<times> int) list list"
  shuffles :: nat

text \<open>\<^verbatim>\<open>self.metrics\<close>\<close>

definition metrics :: "string list" where
  "metrics = [''points'', ''goal_difference'', ''goals_for'', ''head-to-head'', ''random'']"

text \<open>The truth value of a team name or \<^verbatim>\<open>None\<close>: false for \<^verbatim>\<open>None\<close> and for the empty string.\<close>

definition truthy :: "string option \<Rightarrow> bool" where
  "truthy v = (case v of None \<Rightarrow> False | Some t \<Rightarrow> t \<noteq> [])"

text \<open>\<^verbatim>\<open>xs[i]\<close> and \<^verbatim>\<open>xs.index(x)\<close>\<close>

definition py_nth :: "'a list \<Rightarrow> nat \<Rightarrow> error + 'a" where
  "py_nth xs i = (if i < length xs then Inr (xs ! i) else Inl IndexError)"

fun index_of :: "'a list \<Rightarrow> 'a \<Rightarrow> nat option" where
  "index_of [] x = None"
| "index_of (y # ys) x = (if x = y then Some 0 else map_option Suc (index_of ys x))"

text \<open>
  \<^verbatim>\<open>{k: d[k] for k in ks}\<close>: a KeyError at the first missing key; a key that comes
  again keeps its place in the new dictionary and takes the new value. \<open>lookup_all\<close>
  is the same reading of every key into a list, where a repeated key stays repeated.
\<close>

fun dict_comprehension :: "('k \<rightharpoonup> 'v) \<Rightarrow> 'k list \<Rightarrow> ('k \<times> 'v) list \<Rightarrow> error + ('k \<times> 'v) list" where
  "dict_comprehension d [] acc = Inr acc"
| "dict_comprehension d (k # ks) acc =
     (case d k of
        None \<Rightarrow> Inl KeyError
      | Some v \<Rightarrow> dict_comprehension d ks (AList.update k v acc))"

fun lookup_all :: "('k \<rightharpoonup> 'v) \<Rightarrow> 'k list \<Rightarrow> error + ('k \<times> 'v) list" where
  "lookup_all d [] = Inr []"
| "lookup_all d (k # ks) =
     (case d k of
        None \<Rightarrow> Inl KeyError
      | Some v \<Rightarrow> (case lookup_all d ks of Inl e \<Rightarrow> Inl e | Inr kvs \<Rightarrow> Inr ((k, v) # kvs)))"

text \<open>\<^verbatim>\<open>Group.fill_standings_position\<close>\<close>

definition fill_standings_position :: "string \<Rightarrow> string \<Rightarrow> cascade \<Rightarrow> error option \<times> cascade" where
  "fill_standings_position team position st =
     (case standings_dict st position of
        None \<Rightarrow> (Some KeyError, st)
      | Some v \<Rightarrow>
         if truthy v then (Some RuntimeError, st)
         else (None, st\<lparr>standings_dict := (standings_dict st)(position \<mapsto> Some team)\<rparr>))"

text \<open>\<^verbatim>\<open>Group.find_head_to_head_winner\<close>: the first result between the two teams decides.\<close>

fun find_head_to_head_winner ::
  "(string \<times> int) list list \<Rightarrow> string \<Rightarrow> string \<Rightarrow> string option \<times> string option" where
  "find_head_to_head_winner [] team_A team_B = (None, None)"
| "find_head_to_head_winner (result # rest) team_A team_B =
     (if set (map fst result) = {team_A, team_B} then
        (case (map_of result team_A, map_of result team_B) of
           (Some a, Some b) \<Rightarrow>
             if a > b then (Some team_A, Some team_B)
             else if b > a then (Some team_B, Some team_A)
             else (None, None)
         | _ \<Rightarrow> (None, None))
      else find_head_to_head_winner rest team_A team_B)"

text \<open>
  A run of the cascade ends in \<open>Some (fault, state)\<close>; \<open>None\<close> stands for a run that has
  used up its recursion depth. \<open>andthen\<close> is the sequencing of two statements: a fault
  of the first skips the second.
\<close>

type_synonym outcome = "(error option \<times> cascade) option"

fun andthen :: "outcome \<Rightarrow> (cascade \<Rightarrow> outcome) \<Rightarrow> outcome" where
  "andthen None f = None"
| "andthen (Some (Some e, st)) f = Some (Some e, st)"
| "andthen (Some (None, st)) f = f st"

text \<open>
  \<^verbatim>\<open>self.fill_standings_position(team, position)\<close> with the two arguments evaluated
  first, the team before the position.
\<close>

definition fill :: "error + string \<Rightarrow> error + string \<Rightarrow> cascade \<Rightarrow> outcome" where
  "fill team position st =
     (case team of
        Inl e \<Rightarrow> Some (Some e, st)
      | Inr t \<Rightarrow>
         (case position of
            Inl e \<Rightarrow> Some (Some e, st)
          | Inr p \<Rightarrow> Some (fill_standings_position t p st)))"

text \<open>The loop of the "random" branch: \<^verbatim>\<open>for i, pos in enumerate(positions_to_fill)\<close>.\<close>

fun fill_in_order :: "string list \<Rightarrow> nat \<Rightarrow> string list \<Rightarrow> cascade \<Rightarrow> outcome" where
  "fill_in_order teams_to_sort i [] st = Some (None, st)"
| "fill_in_order teams_to_sort i (pos # rest) st =
     andthen (fill (py_nth teams_to_sort i) (Inr pos) st) (fill_in_order teams_to_sort (Suc i) rest)"

text \<open>
  The recursive call is a parameter \<open>self\<close> of the branches, which take the sorted teams
  \<open>team_list\<close>, their values \<open>score\<close> of the metric (\<^verbatim>\<open>team_scores[i][metric]\<close>), the
  positions and the next metric.
\<close>

type_synonym call = "string list \<Rightarrow> string list \<Rightarrow> string \<Rightarrow> cascade \<Rightarrow> outcome"

definition two_teams :: "call \<Rightarrow> string list \<Rightarrow> int list \<Rightarrow> string list \<Rightarrow> string \<Rightarrow> cascade \<Rightarrow> outcome" where
  "two_teams self team_list score positions_to_fill new_metric st =
     (if score ! 0 > score ! 1 then
        andthen (fill (py_nth team_list 0) (py_nth positions_to_fill 0) st)
          (fill (py_nth team_list 1) (py_nth positions_to_fill 1))
      else self team_list positions_to_fill new_metric st)"

definition three_teams :: "call \<Rightarrow> string list \<Rightarrow> int list \<Rightarrow> string list \<Rightarrow> string \<Rightarrow> cascade \<Rightarrow> outcome" where
  "three_teams self team_list score positions_to_fill new_metric st =
     (if score ! 0 > score ! 1 \<and> score ! 1 > score ! 2 then
        andthen (fill (py_nth team_list 0) (py_nth positions_to_fill 0) st) (\<lambda>st.
        andthen (fill (py_nth team_list 1) (py_nth positions_to_fill 1) st)
          (fill (py_nth team_list 2) (py_nth positions_to_fill 2)))
      else if score ! 0 > score ! 1 \<and> score ! 1 = score ! 2 then
        andthen (fill (py_nth team_list 0) (py_nth positions_to_fill 0) st)
          (self (drop 1 team_list) (drop 1 positions_to_fill) new_metric)
      else if score ! 0 = score ! 1 \<and> score ! 1 > score ! 2 then
        andthen (fill (py_nth team_list 2) (py_nth positions_to_fill 2) st)
          (self (take 2 team_list) (take 2 positions_to_fill) new_metric)
      else self team_list positions_to_fill new_metric st)"

definition four_teams :: "call \<Rightarrow> string list \<Rightarrow> int list \<Rightarrow> string list \<Rightarrow> string \<Rightarrow> cascade \<Rightarrow> outcome" where
  "four_teams self team_list score positions_to_fill new_metric st =
     (if score ! 0 > score ! 1 \<and> score ! 1 > score ! 2 \<and> score ! 2 > score ! 3 then
        andthen (fill (py_nth team_list 0) (Inr ''1st'') st) (\<lambda>st.
        andthen (fill (py_nth team_list 1) (Inr ''2nd'') st) (\<lambda>st.
        andthen (fill (py_nth team_list 2) (Inr ''3rd'') st)
          (fill (py_nth team_list 3) (Inr ''4th''))))
      else if score ! 0 = score ! 1 \<and> score ! 1 > score ! 2 \<and> score ! 2 > score ! 3 then
        andthen (fill (py_nth team_list 2) (Inr ''3rd'') st) (\<lambda>st.
        andthen (fill (py_nth team_list 3) (Inr ''4th'') st)
          (self (take 2 team_list) (take 2 positions_to_fill) new_metric))
      else if score ! 0 > score ! 1 \<and> score ! 1 = score ! 2 \<and> score ! 2 > score ! 3 then
        andthen (fill (py_nth team_list 0) (Inr ''1st'') st) (\<lambda>st.
        andthen (fill (py_nth team_list 3) (Inr ''4th'') st)
          (self (take 2 (drop 1 team_list)) (take 2 (drop 1 positions_to_fill)) new_metric))
      else if score ! 0 > score ! 1 \<and> score ! 1 > score ! 2 \<and> score ! 2 = score ! 3 then
        andthen (fill (py_nth team_list 0) (Inr ''1st'') st) (\<lambda>st.
        andthen (fill (py_nth team_list 1) (Inr ''2nd'') st)
          (self (drop 2 team_list) (drop 2 positions_to_fill) new_metric))
      else if score ! 0 = score ! 1 \<and> score ! 1 = score ! 2 \<and> score ! 2 > score ! 3 then
        andthen (fill (py_nth team_list 3) (Inr ''4th'') st)
          (self (take 3 team_list) (take 3 positions_to_fill) new_metric)
      else if score ! 0 > score ! 1 \<and> score ! 1 = score ! 2 \<and> score ! 2 = score ! 3 then
        andthen (fill (py_nth team_list 0) (Inr ''1st'') st)
          (self (drop 1 team_list) (drop 1 positions_to_fill) new_metric)
      else if score ! 0 = score ! 1 \<and> score ! 1 > score ! 2 \<and> score ! 2 = score ! 3 then
        andthen (self (take 2 team_list) (take 2 positions_to_fill) new_metric st)
          (self (drop 2 team_list) (drop 2 positions_to_fill) new_metric)
      else self team_list positions_to_fill new_metric st)"

text \<open>
  The choice among the three branches by \<^verbatim>\<open>len(team_list)\<close>; with any other number
  of teams the method returns without doing anything.
\<close>

definition by_team_count :: "call \<Rightarrow> (string \<times> int) list \<Rightarrow> string list \<Rightarrow> string \<Rightarrow> cascade \<Rightarrow> outcome" where
  "by_team_count self team_scores positions_to_fill new_metric st =
     (let team_list = map fst team_scores; score = map snd team_scores
      in if length team_list = 2 then
           two_teams self team_list score positions_to_fill new_metric st
         else if length team_list = 3 then
           three_teams self team_list score positions_to_fill new_metric st
         else if length team_list = 4 then
           four_teams self team_list score positions_to_fill new_metric st
         else Some (None, st))"

text \<open>
  One activation of \<^verbatim>\<open>set_positions_using_metric\<close>. Two things come from outside the
  class and are parameters: \<open>sort_teams_by\<close>, the helper of \<^verbatim>\<open>utils\<close>, which returns for
  each entry of its result the fields \<^verbatim>\<open>"team"\<close> and \<^verbatim>\<open>metric\<close> that the code reads,
  and \<open>shuffle\<close>, where \<open>shuffle k\<close> is what the \<open>k\<close>-th call of \<^verbatim>\<open>random.shuffle\<close> makes
  of a list.
\<close>

type_synonym sorter = "(string \<times> (string \<rightharpoonup> int)) list \<Rightarrow> string \<Rightarrow> error + (string \<times> int) list"

definition set_positions_body :: "sorter \<Rightarrow> (nat \<Rightarrow> string list \<Rightarrow> string list) \<Rightarrow> call \<Rightarrow> call" where
  "set_positions_body sort_teams_by shuffle self teams_to_sort positions_to_fill metric st =
     (if length teams_to_sort \<noteq> length positions_to_fill then Some (Some RuntimeError, st)
      else if metric = ''random'' then
        fill_in_order (shuffle (shuffles st) teams_to_sort) 0 positions_to_fill
          (st\<lparr>shuffles := Suc (shuffles st)\<rparr>)
      else if metric = ''head-to-head'' then
        (if length teams_to_sort > 2 then self teams_to_sort positions_to_fill ''random'' st
         else
           (case (py_nth teams_to_sort 0, py_nth teams_to_sort 1) of
              (Inr team_A, Inr team_B) \<Rightarrow>
                (case find_head_to_head_winner (results_list st) team_A team_B of
                   (Some team_1, Some team_2) \<Rightarrow>
                     if team_1 \<noteq> [] \<and> team_2 \<noteq> [] then
                       andthen (fill (Inr team_1) (py_nth positions_to_fill 0) st)
                         (fill (Inr team_2) (py_nth positions_to_fill 1))
                     else self teams_to_sort positions_to_fill ''random'' st
                 | _ \<Rightarrow> self teams_to_sort positions_to_fill ''random'' st)
            | _ \<Rightarrow> Some (Some IndexError, st)))
      else
        (case dict_comprehension (table_dict st) teams_to_sort [] of
           Inl e \<Rightarrow> Some (Some e, st)
         | Inr team_dict \<Rightarrow>
            (case sort_teams_by team_dict metric of
               Inl e \<Rightarrow> Some (Some e, st)
             | Inr team_scores \<Rightarrow>
                (case index_of metrics metric of
                   None \<Rightarrow> Some (Some ValueError, st)
                 | Some current_metric_index \<Rightarrow>
                    (case py_nth metrics (current_metric_index + 1) of
                       Inl e \<Rightarrow> Some (Some e, st)
                     | Inr new_metric \<Rightarrow>
                        by_team_count self team_scores positions_to_fill new_metric st)))))"

text \<open>
  \<^verbatim>\<open>Group.set_positions_using_metric\<close> with a bound on the depth of the recursion:
  every activation takes one unit of \<open>fuel\<close>, and none is left for an activation at
  \<open>fuel = 0\<close>.
\<close>

primrec set_positions_using_metric ::
  "nat \<Rightarrow> sorter \<Rightarrow> (nat \<Rightarrow> string list \<Rightarrow> string list) \<Rightarrow> call" where
  "set_positions_using_metric 0 sort_teams_by shuffle = (\<lambda>teams_to_sort positions_to_fill metric st. None)"
| "set_positions_using_metric (Suc fuel) sort_teams_by shuffle =
     set_positions_body sort_teams_by shuffle (set_positions_using_metric fuel sort_teams_by shuffle)"

text \<open>The number of metrics that come after a metric in \<^verbatim>\<open>self.metrics\<close>.\<close>

definition metric_rank :: "string \<Rightarrow> nat" where
  "metric_rank metric =
     (case index_of metrics metric of None \<Rightarrow> 0 | Some i \<Rightarrow> length metrics - 1 - i)"

text \<open>
  What a call has done when it returns without a fault and without a recursive call. A
  position is assigned when the standings hold a team for it. \<open>sorted_count\<close> is the
  number of entries that \<open>sort_teams_by\<close> returns for the call.
\<close>

definition assigned :: "cascade \<Rightarrow> string \<Rightarrow> bool" where
  "assigned st position =
     (case standings_dict st position of Some (Some team) \<Rightarrow> True | _ \<Rightarrow> False)"

definition sorted_count :: "sorter \<Rightarrow> string list \<Rightarrow> string \<Rightarrow> cascade \<Rightarrow> nat option" where
  "sorted_count sort_teams_by teams_to_sort metric st =
     (case dict_comprehension (table_dict st) teams_to_sort [] of
        Inl e \<Rightarrow> None
      | Inr team_dict \<Rightarrow>
         (case sort_teams_by team_dict metric of
            Inl e \<Rightarrow> None
          | Inr team_scores \<Rightarrow> Some (length team_scores)))"

definition filled_after :: "sorter \<Rightarrow> string list \<Rightarrow> string list \<Rightarrow> string \<Rightarrow> cascade \<Rightarrow> cascade \<Rightarrow> bool" where
  "filled_after sort_teams_by teams_to_sort positions_to_fill metric st st' =
     (if metric = ''random'' \<or> metric = ''head-to-head'' then
        list_all (assigned st') positions_to_fill
      else
        (case sorted_count sort_teams_by teams_to_sort metric st of
           None \<Rightarrow> False
         | Some n \<Rightarrow>
            if n = 2 \<or> n = 3 then
              n \<le> length positions_to_fill \<and> list_all (assigned st') (take n positions_to_fill)
            else if n = 4 then list_all (assigned st') [''1st'', ''2nd'', ''3rd'', ''4th'']
            else st' = st))"

definition returns :: "outcome \<Rightarrow> bool" where
  "returns out = (out \<noteq> None)"

section \<open>Tournament\<close>

text \<open>
  A row of the fixtures table, and the tournament. \<open>groups\<close> and \<open>aliases\<close> keep the
  order of insertion of a dictionary and of the columns of a DataFrame; every column of
  \<open>aliases\<close> has one entry per sample. \<open>winner\<close> is absent until the final is played.
\<close>

record fixture =
  Stage :: string
  Team_1 :: string
  Team_2 :: string

type_synonym alias_table = "(string \<times> string list) list"

record tournament =
  teams_df :: "(string \<times> string) list"
  fixtures_df :: "fixture list"
  groups :: "(string \<times> group) list"
  aliases :: alias_table
  is_complete :: bool
  num_samples :: nat
  winner :: "string list option"

text \<open>
  \<^verbatim>\<open>self.groups[group].add_result\<close>: class \<^verbatim>\<open>Group\<close> defines \<^verbatim>\<open>add_results\<close> and no
  attribute \<^verbatim>\<open>add_result\<close>, so the lookup of the method raises AttributeError before
  anything is called.
\<close>

definition Group_add_result :: "group \<Rightarrow> string \<Rightarrow> string \<Rightarrow> int \<Rightarrow> int \<Rightarrow> error + group" where
  "Group_add_result g team_1 team_2 score_1 score_2 = Inl AttributeError"

text \<open>
  \<^verbatim>\<open>Tournament.add_result\<close>: the loop over the rows of the fixtures, then the method.
  \<open>find_group\<close> is the helper of \<^verbatim>\<open>utils\<close>, a parameter.
\<close>

fun add_result_rows ::
  "(string \<Rightarrow> (string \<times> string) list \<Rightarrow> error + string) \<Rightarrow> fixture list \<Rightarrow>
   string \<Rightarrow> string \<Rightarrow> int \<Rightarrow> int \<Rightarrow> string \<Rightarrow> tournament \<Rightarrow> error option \<times> tournament" where
  "add_result_rows find_group [] team_1 team_2 score_1 score_2 stage t = (None, t)"
| "add_result_rows find_group (row # rows) team_1 team_2 score_1 score_2 stage t =
     (if stage \<noteq> Stage row then
        add_result_rows find_group rows team_1 team_2 score_1 score_2 stage t
      else if stage = ''Group'' then
        (if {Team_1 row, Team_2 row} = {team_1, team_2} then
           (case find_group team_1 (teams_df t) of
              Inl e \<Rightarrow> (Some e, t)
            | Inr group_name \<Rightarrow>
               (case map_of (groups t) group_name of
                  None \<Rightarrow> (Some KeyError, t)
                | Some g \<Rightarrow>
                   (case Group_add_result g team_1 team_2 score_1 score_2 of
                      Inl e \<Rightarrow> (Some e, t)
                    | Inr g' \<Rightarrow>
                       add_result_rows find_group rows team_1 team_2 score_1 score_2 stage
                         (t\<lparr>groups := AList.update group_name g' (groups t)\<rparr>))))
         else add_result_rows find_group rows team_1 team_2 score_1 score_2 stage t)
      else add_result_rows find_group rows team_1 team_2 score_1 score_2 stage t)"

definition add_result ::
  "(string \<Rightarrow> (string \<times> string) list \<Rightarrow> error + string) \<Rightarrow> tournament \<Rightarrow>
   string \<Rightarrow> string \<Rightarrow> int \<Rightarrow> int \<Rightarrow> string \<Rightarrow> error option \<times> tournament" where
  "add_result find_group t team_1 team_2 score_1 score_2 stage =
     add_result_rows find_group (fixtures_df t) team_1 team_2 score_1 score_2 stage t"

text \<open>The fixture that \<^verbatim>\<open>add_result\<close> looks for: of the stage "Group", between the two teams.\<close>

definition is_group_fixture :: "string \<Rightarrow> string \<Rightarrow> string \<Rightarrow> fixture \<Rightarrow> bool" where
  "is_group_fixture stage team_1 team_2 row =
     (Stage row = stage \<and> stage = ''Group'' \<and> {Team_1 row, Team_2 row} = {team_1, team_2})"

subsection \<open>The alias table\<close>

text \<open>
  \<^verbatim>\<open>df[key] = values\<close> for one column: the values must be as many as the rows; an
  existing column of that name is replaced where it stands, a new one comes last.
\<close>

definition set_column :: "nat \<Rightarrow> string \<Rightarrow> string list \<Rightarrow> alias_table \<Rightarrow> error + alias_table" where
  "set_column S key vals a =
     (if length vals = S then Inr (AList.update key vals a) else Inl ValueError)"

text \<open>
  \<^verbatim>\<open>df[keys] = value\<close> for a list of keys and a two-dimensional array: pandas assigns
  column \<open>i\<close> of the array to the \<open>i\<close>-th key, one key after the other.
\<close>

fun set_columns ::
  "nat \<Rightarrow> string list \<Rightarrow> nat \<Rightarrow> string list list \<Rightarrow> alias_table \<Rightarrow> error option \<times> alias_table" where
  "set_columns S [] i val a = (None, a)"
| "set_columns S (key # rest) i val a =
     (case set_column S key (column val i) a of
        Inl e \<Rightarrow> (Some e, a)
      | Inr a' \<Rightarrow> set_columns S rest (Suc i) val a')"

text \<open>
  \<^verbatim>\<open>df[keys]\<close>: the columns of these names, one for every key of the list, a KeyError
  if one is missing.
\<close>

definition get_columns :: "alias_table \<Rightarrow> string list \<Rightarrow> error + string list list" where
  "get_columns a keys =
     (case lookup_all (map_of a) keys of Inl e \<Rightarrow> Inl e | Inr kvs \<Rightarrow> Inr (map snd kvs))"

text \<open>\<^verbatim>\<open>.values.flatten()\<close> of \<open>S\<close> rows, row by row, and \<^verbatim>\<open>.reshape((S, F))\<close>.\<close>

definition values_flatten :: "nat \<Rightarrow> string list list \<Rightarrow> string list" where
  "values_flatten S cols = concat (map (\<lambda>s. map (\<lambda>c. c ! s) cols) [0..<S])"

definition reshape :: "nat \<Rightarrow> nat \<Rightarrow> 'a list \<Rightarrow> error + 'a list list" where
  "reshape S F flat =
     (if length flat = S * F then Inr (map (\<lambda>s. take F (drop (s * F) flat)) [0..<S])
      else Inl ValueError)"

subsection \<open>The knockout stages\<close>

text \<open>The keys under which a stage records its winners: the two slot names, concatenated.\<close>

definition stage_fixtures :: "string \<Rightarrow> tournament \<Rightarrow> fixture list" where
  "stage_fixtures stage t = filter (\<lambda>f. Stage f = stage) (fixtures_df t)"

definition stage_keys :: "string \<Rightarrow> tournament \<Rightarrow> string list" where
  "stage_keys stage t = map (\<lambda>f. Team_1 f @ Team_2 f) (stage_fixtures stage t)"

text \<open>
  In a bracket the keys of a round are new: no two fixtures of the round have the same
  key, and no column of the table has the name of one yet (the slots of a round are the
  columns of the round before, and the key of a fixture, made of two of them, is longer
  than every name of the table).
\<close>

definition new_keys :: "string \<Rightarrow> tournament \<Rightarrow> bool" where
  "new_keys stage t =
     (distinct (stage_keys stage t)
      \<and> list_all (\<lambda>key. map_of (aliases t) key = None) (stage_keys stage t))"

text \<open>
  One round of the loop over the stages in \<^verbatim>\<open>play_knockout_stages\<close>. The predictor
  \<^verbatim>\<open>wc_pred\<close> is an object of another module: \<open>simulate_outcome\<close> takes its state and the
  two flattened arrays of teams and returns the winners (or a fault) and its new state.
\<close>

definition knockout_stage ::
  "('p \<Rightarrow> string list \<Rightarrow> string list \<Rightarrow> (error + string list) \<times> 'p) \<Rightarrow> string \<Rightarrow>
   'p \<times> tournament \<Rightarrow> error option \<times> 'p \<times> tournament" where
  "knockout_stage simulate_outcome stage = (\<lambda>(wc_pred, t).
     (case get_columns (aliases t) (map Team_1 (stage_fixtures stage t)) of
        Inl e \<Rightarrow> (Some e, wc_pred, t)
      | Inr home \<Rightarrow>
     (case get_columns (aliases t) (map Team_2 (stage_fixtures stage t)) of
        Inl e \<Rightarrow> (Some e, wc_pred, t)
      | Inr away \<Rightarrow>
     (case simulate_outcome wc_pred (values_flatten (num_samples t) home)
             (values_flatten (num_samples t) away) of
        (Inl e, wc_pred') \<Rightarrow> (Some e, wc_pred', t)
      | (Inr out, wc_pred') \<Rightarrow>
     (case reshape (num_samples t) (length (stage_fixtures stage t)) out of
        Inl e \<Rightarrow> (Some e, wc_pred', t)
      | Inr res \<Rightarrow>
     (case set_columns (num_samples t) (stage_keys stage t) 0 res (aliases t) of
        (Some e, a') \<Rightarrow> (Some e, wc_pred', t\<lparr>aliases := a'\<rparr>)
      | (None, a') \<Rightarrow>
         (None, wc_pred',
          if stage = ''F'' then t\<lparr>aliases := a', winner := Some (concat res)\<rparr>
          else t\<lparr>aliases := a'\<rparr>)))))))"

fun play_stages ::
  "('p \<Rightarrow> string list \<Rightarrow> string list \<Rightarrow> (error + string list) \<times> 'p) \<Rightarrow> string list \<Rightarrow>
   'p \<times> tournament \<Rightarrow> error option \<times> 'p \<times> tournament" where
  "play_stages simulate_outcome [] pt = (None, pt)"
| "play_stages simulate_outcome (stage # stages) pt =
     (case knockout_stage simulate_outcome stage pt of
        (Some e, pt') \<Rightarrow> (Some e, pt')
      | (None, pt') \<Rightarrow> play_stages simulate_outcome stages pt')"

text \<open>
  The first loop of \<^verbatim>\<open>play_knockout_stages\<close>, over the groups: \<open>rnd key\<close> is the random
  array drawn if the standings of group \<open>key\<close> are still to be computed.
\<close>

fun assign_qualifiers ::
  "(string \<Rightarrow> nat \<Rightarrow> nat \<Rightarrow> rat) \<Rightarrow> (string \<times> group) list \<Rightarrow> tournament \<Rightarrow>
   error option \<times> tournament" where
  "assign_qualifiers rnd [] t = (None, t)"
| "assign_qualifiers rnd ((key, g) # rest) t =
     (case get_qualifiers g (rnd key) of
        (Inl e, g') \<Rightarrow> (Some e, t\<lparr>groups := AList.update key g' (groups t)\<rparr>)
      | (Inr (t1, t2), g') \<Rightarrow>
         (case set_column (num_samples t) (''1'' @ name g') t1 (aliases t) of
            Inl e \<Rightarrow> (Some e, t\<lparr>groups := AList.update key g' (groups t)\<rparr>)
          | Inr a1 \<Rightarrow>
             (case set_column (num_samples t) (''2'' @ name g') t2 a1 of
                Inl e \<Rightarrow> (Some e, t\<lparr>groups := AList.update key g' (groups t), aliases := a1\<rparr>)
              | Inr a2 \<Rightarrow>
                 assign_qualifiers rnd rest
                   (t\<lparr>groups := AList.update key g' (groups t), aliases := a2\<rparr>))))"

text \<open>\<^verbatim>\<open>Tournament.play_knockout_stages\<close>\<close>

definition play_knockout_stages ::
  "('p \<Rightarrow> string list \<Rightarrow> string list \<Rightarrow> (error + string list) \<times> 'p) \<Rightarrow>
   (string \<Rightarrow> nat \<Rightarrow> nat \<Rightarrow> rat) \<Rightarrow> 'p \<times> tournament \<Rightarrow> error option \<times> 'p \<times> tournament" where
  "play_knockout_stages simulate_outcome rnd = (\<lambda>(wc_pred, t).
     (case assign_qualifiers rnd (groups t) t of
        (Some e, t1) \<Rightarrow> (Some e, wc_pred, t1)
      | (None, t1) \<Rightarrow>
         (case play_stages simulate_outcome [''R16'', ''QF'', ''SF'', ''F''] (wc_pred, t1) of
            (Some e, wc_pred', t2) \<Rightarrow> (Some e, wc_pred', t2)
          | (None, wc_pred', t2) \<Rightarrow> (None, wc_pred', t2\<lparr>is_complete := True\<rparr>))))"

subsection \<open>How far a team got\<close>

text \<open>
  The truth value that an \<^verbatim>\<open>if\<close> takes of a numpy array of booleans: that of the
  element when there is one, a ValueError ("the truth value of an array with more than
  one element is ambiguous") when there are several, false for an empty array (which
  numpy deprecates). A pandas Series has no truth value whatever its length: a
  ValueError.
\<close>

definition array_truth :: "bool list \<Rightarrow> error + bool" where
  "array_truth b = (case b of [] \<Rightarrow> Inr False | [x] \<Rightarrow> Inr x | _ \<Rightarrow> Inl ValueError)"

definition series_truth :: "bool list \<Rightarrow> error + bool" where
  "series_truth b = Inl ValueError"

text \<open>
  \<^verbatim>\<open>self.aliases.values()\<close>: \<^verbatim>\<open>values\<close> of a DataFrame is a property that holds an
  array, and calling an array raises TypeError.
\<close>

definition aliases_values_call :: "alias_table \<Rightarrow> error + string list" where
  "aliases_values_call a = Inl TypeError"

definition key_length_lookup :: "nat \<Rightarrow> error + string" where
  "key_length_lookup n =
     (if n = 2 then Inr ''R16'' else if n = 4 then Inr ''QF'' else if n = 8 then Inr ''SF''
      else if n = 16 then Inr ''RU'' else Inl KeyError)"

text \<open>The loop over the aliases sorted by the length of the key, the longest first.\<close>

fun scan_aliases :: "string \<Rightarrow> alias_table \<Rightarrow> error + string option" where
  "scan_aliases team_name [] = Inl RuntimeError"
| "scan_aliases team_name ((k, v) # rest) =
     (case series_truth (map (\<lambda>x. x = team_name) v) of
        Inl e \<Rightarrow> Inl e
      | Inr True \<Rightarrow> map_sum id Some (key_length_lookup (length k))
      | Inr False \<Rightarrow> scan_aliases team_name rest)"

text \<open>
  \<^verbatim>\<open>Tournament.get_furthest_position_for_team\<close>; \<open>Inr None\<close> is the return of
  \<^verbatim>\<open>None\<close> before the tournament is complete. \<^verbatim>\<open>sorted(..., reverse=True)\<close> keeps
  the order of entries with equal keys.
\<close>

definition get_furthest_position_for_team :: "tournament \<Rightarrow> string \<Rightarrow> error + string option" where
  "get_furthest_position_for_team t team_name =
     (if \<not> is_complete t then Inr None
      else
        (case winner t of
           None \<Rightarrow> Inl AttributeError
         | Some w \<Rightarrow>
            (case array_truth (map (\<lambda>x. x = team_name) w) of
               Inl e \<Rightarrow> Inl e
             | Inr True \<Rightarrow> Inr (Some ''W'')
             | Inr False \<Rightarrow>
                (case aliases_values_call (aliases t) of
                   Inl e \<Rightarrow> Inl e
                 | Inr vals \<Rightarrow>
                    if team_name \<notin> set vals then Inr (Some ''G'')
                    else scan_aliases team_name
                           (rev (sort_key (\<lambda>(k, v). length k) (rev (aliases t))))))))"

section \<open>The table as the specification words it\<close>

text \<open>
  The points a side earns in one match from its own score and the other side's: 3 for
  a win, 1 for a draw, 0 for a loss.
\<close>

definition match_points :: "int \<Rightarrow> int \<Rightarrow> int" where
  "match_points own other = (if own > other then 3 else if own = other then 1 else 0)"

definition team_total :: "results \<Rightarrow> (int \<Rightarrow> int \<Rightarrow> int) \<Rightarrow> string \<Rightarrow> nat \<Rightarrow> int" where
  "team_total r f team s =
     (\<Sum>m\<leftarrow>[0..<length (home_team r)].
        (if home_team r ! m = team then f (home_score r ! m ! s) (away_score r ! m ! s) else 0)
      + (if away_team r ! m = team then f (away_score r ! m ! s) (home_score r ! m ! s) else 0))"

text \<open>Scores are non-negative integers; \<open>B\<close> bounds them.\<close>

definition bounded_scores :: "int \<Rightarrow> results \<Rightarrow> bool" where
  "bounded_scores B r =
     (list_all (list_all (\<lambda>x. 0 \<le> x \<and> x \<le> B)) (home_score r)
      \<and> list_all (list_all (\<lambda>x. 0 \<le> x \<and> x \<le> B)) (away_score r))"

text \<open>The keys handed to \<^verbatim>\<open>np.lexsort\<close> for sample \<open>s\<close>, the primary key last.\<close>

definition standings_keys :: "table \<Rightarrow> (nat \<Rightarrow> nat \<Rightarrow> rat) \<Rightarrow> nat \<Rightarrow> rat list list" where
  "standings_keys t rnd s =
     map (\<lambda>key. column key s)
       [random_array rnd (length (points t)) (ncols (points t)), as_float (goals_for t),
        as_float (goal_difference t), as_float (points t)]"

section \<open>Example data\<close>

text \<open>
  A group of four with its six matches, one sample, every match won 1-0 by the home
  side: Netherlands win three, Qatar two, Senegal one, Ecuador none.
\<close>

definition example_results :: results where
  "example_results =
     \<lparr>home_team = [''Qatar'', ''Qatar'', ''Netherlands'', ''Senegal'', ''Netherlands'', ''Netherlands''],
      away_team = [''Ecuador'', ''Senegal'', ''Qatar'', ''Ecuador'', ''Ecuador'', ''Senegal''],
      home_score = [[1], [1], [1], [1], [1], [1]],
      away_score = [[0], [0], [0], [0], [0], [0]],
      n_samples = 1\<rparr>"

definition example_group :: group where
  "example_group =
     (Group ''A'' [''Qatar'', ''Ecuador'', ''Senegal'', ''Netherlands''])
       \<lparr>results := Some example_results\<rparr>"

definition example_table :: table where
  "example_table =
     \<lparr>points = [[6], [0], [3], [9]], goals_for = [[2], [0], [1], [3]],
      goals_against = [[1], [3], [2], [0]], goal_difference = [[1], [- 3], [- 1], [3]]\<rparr>"

text \<open>Points falling along the roster, goal difference and goals rising.\<close>

definition decreasing_table :: table where
  "decreasing_table =
     \<lparr>points = [[9], [6], [3], [0]], goals_for = [[1], [2], [3], [4]],
      goals_against = [[4], [3], [2], [1]], goal_difference = [[- 3], [- 1], [1], [3]]\<rparr>"

text \<open>A group of four whose table is already computed.\<close>

definition ranked_group :: "table \<Rightarrow> group" where
  "ranked_group t = (Group ''A'' [''Qatar'', ''Ecuador'', ''Senegal'', ''Netherlands''])
       \<lparr>table := Some t\<rparr>"

definition zero_draw :: "nat \<Rightarrow> nat \<Rightarrow> rat" where
  "zero_draw k s = 0"

text \<open>
  A state of the cascade: Qatar and Ecuador level on every metric and Ecuador the winner
  of their match, Senegal ahead of Netherlands on goal difference. The example sorter
  orders by the metric, the highest value first, and the example shuffle reverses.
\<close>

definition example_cascade :: cascade where
  "example_cascade =
     \<lparr>standings_dict = [''1st'' \<mapsto> None, ''2nd'' \<mapsto> None, ''3rd'' \<mapsto> None, ''4th'' \<mapsto> None],
      table_dict =
        [''Qatar'' \<mapsto> [''points'' \<mapsto> 6, ''goal_difference'' \<mapsto> 1, ''goals_for'' \<mapsto> 2],
         ''Ecuador'' \<mapsto> [''points'' \<mapsto> 6, ''goal_difference'' \<mapsto> 1, ''goals_for'' \<mapsto> 2],
         ''Senegal'' \<mapsto> [''points'' \<mapsto> 3, ''goal_difference'' \<mapsto> 1, ''goals_for'' \<mapsto> 2],
         ''Netherlands'' \<mapsto> [''points'' \<mapsto> 3, ''goal_difference'' \<mapsto> 0, ''goals_for'' \<mapsto> 2]],
      results_list = [[(''Qatar'', 1), (''Ecuador'', 2)]],
      shuffles = 0\<rparr>"

definition example_sorter :: sorter where
  "example_sorter team_dict metric =
     (if list_all (\<lambda>(t, d). d metric \<noteq> None) team_dict
      then Inr (rev (sort_key snd (rev (map (\<lambda>(t, d). (t, case d metric of Some v \<Rightarrow> v | None \<Rightarrow> 0)) team_dict))))
      else Inl KeyError)"

definition example_shuffle :: "nat \<Rightarrow> string list \<Rightarrow> string list" where
  "example_shuffle k ts = rev ts"

text \<open>
  A small tournament: one group, one sample, and a bracket in which the quarter-final
  pairs the same two slots as the round of 16. The example predictor lets the first
  team of every fixture win at its first and third call and the second team at its
  second and fourth; its state counts the calls.
\<close>

definition example_predictor :: "nat \<Rightarrow> string list \<Rightarrow> string list \<Rightarrow> (error + string list) \<times> nat" where
  "example_predictor calls home away = (Inr (if even calls then home else away), Suc calls)"

definition example_tournament :: tournament where
  "example_tournament =
     \<lparr>teams_df = [(''Qatar'', ''A''), (''Ecuador'', ''A''), (''Senegal'', ''A''), (''Netherlands'', ''A'')],
      fixtures_df =
        [\<lparr>Stage = ''Group'', Team_1 = ''Qatar'', Team_2 = ''Ecuador''\<rparr>,
         \<lparr>Stage = ''R16'', Team_1 = ''1A'', Team_2 = ''2A''\<rparr>,
         \<lparr>Stage = ''QF'', Team_1 = ''1A'', Team_2 = ''2A''\<rparr>,
         \<lparr>Stage = ''SF'', Team_1 = ''1A2A'', Team_2 = ''2A''\<rparr>,
         \<lparr>Stage = ''F'', Team_1 = ''1A2A2A'', Team_2 = ''1A''\<rparr>],
      groups = [(''A'', example_group)],
      aliases = [], is_complete = False, num_samples = 1, winner = None\<rparr>"

text \<open>
  The example tournament after the loop over the groups, after the round of 16 and at
  the end, when the random draws are all zero.
\<close>

definition zero_draws :: "string \<Rightarrow> nat \<Rightarrow> nat \<Rightarrow> rat" where
  "zero_draws key = zero_draw"

definition qualified_tournament :: tournament where
  "qualified_tournament =
     example_tournament
       \<lparr>groups := [(''A'', example_group\<lparr>table := Some example_table,
                                           standings := Some [[3], [2], [4], [1]]\<rparr>)],
        aliases := [(''1A'', [''Netherlands'']), (''2A'', [''Ecuador''])]\<rparr>"

definition after_R16 :: tournament where
  "after_R16 =
     qualified_tournament
       \<lparr>aliases := [(''1A'', [''Netherlands'']), (''2A'', [''Ecuador'']),
                   (''1A2A'', [''Netherlands''])]\<rparr>"

definition finished_tournament :: tournament where
  "finished_tournament =
     qualified_tournament
       \<lparr>aliases := [(''1A'', [''Netherlands'']), (''2A'', [''Ecuador'']), (''1A2A'', [''Ecuador'']),
                   (''1A2A2A'', [''Ecuador'']), (''1A2A2A1A'', [''Netherlands''])],
        is_complete := True, winner := Some [''Netherlands'']\<rparr>"

text \<open>The group of a team as the roster table gives it.\<close>

definition roster_group :: "string \<Rightarrow> (string \<times> string) list \<Rightarrow> error + string" where
  "roster_group team df = (case map_of df team of Some g \<Rightarrow> Inr g | None \<Rightarrow> Inl KeyError)"

text \<open>A complete tournament of two samples, won by Netherlands in one and Qatar in the other.\<close>

definition two_sample_tournament :: tournament where
  "two_sample_tournament =
     \<lparr>teams_df = [(''Qatar'', ''A''), (''Ecuador'', ''A''), (''Senegal'', ''A''), (''Netherlands'', ''A'')],
      fixtures_df = [\<lparr>Stage = ''F'', Team_1 = ''1A'', Team_2 = ''2A''\<rparr>],
      groups = [],
      aliases = [(''1A'', [''Netherlands'', ''Qatar'']), (''2A'', [''Qatar'', ''Netherlands'']),
                 (''1A2A'', [''Netherlands'', ''Qatar''])],
      is_complete = True, num_samples = 2, winner = Some [''Netherlands'', ''Qatar'']\<rparr>"

section \<open>Arrays: shapes and sums\<close>

lemma shaped_nth: "shaped n S m \<Longrightarrow> k < n \<Longrightarrow> length (m ! k) = S"
  by (simp add: shaped_def list_all_length)

lemma shaped_length: "shaped n S m \<Longrightarrow> length m = n"
  by (simp add: shaped_def)

lemma shaped_elementwise2:
  "shaped n S x \<Longrightarrow> shaped n S y \<Longrightarrow> shaped n S (elementwise2 f x y)"
  by (simp add: shaped_def elementwise2_def list_all_length)

lemma elementwise2_nth:
  "shaped n S x \<Longrightarrow> shaped n S y \<Longrightarrow> k < n \<Longrightarrow> s < S \<Longrightarrow>
   elementwise2 f x y ! k ! s = f (x ! k ! s) (y ! k ! s)"
  by (simp add: shaped_def elementwise2_def list_all_length)

lemma shaped_assign_where:
  "shaped n S b \<Longrightarrow> shaped n S a \<Longrightarrow> shaped n S (assign_where b v a)"
  by (simp add: assign_where_def shaped_elementwise2)

lemma wrap64_id: "- (2 ^ 63) \<le> x \<Longrightarrow> x < 2 ^ 63 \<Longrightarrow> wrap64 x = x"
  by (simp add: wrap64_def)

lemma float64_id: "\<bar>x\<bar> < 2 ^ 53 \<Longrightarrow> float64_of_int x = x"
  by (simp add: float64_of_int_def)

lemma length_column_sums:
  "list_all (\<lambda>row. length row = S) rows \<Longrightarrow>
   length (foldr (map2 (+)) rows (replicate S (0::int))) = S"
  by (induction rows) simp_all

lemma column_sums_nth:
  "list_all (\<lambda>row. length row = S) rows \<Longrightarrow> s < S \<Longrightarrow>
   foldr (map2 (+)) rows (replicate S (0::int)) ! s = (\<Sum>row\<leftarrow>rows. row ! s)"
  by (induction rows) (simp_all add: length_column_sums)

lemma length_sum_axis0:
  "list_all (\<lambda>row. length row = S) rows \<Longrightarrow> length (sum_axis0 S rows) = S"
  by (simp add: sum_axis0_def length_column_sums)

lemma sum_axis0_nth:
  "list_all (\<lambda>row. length row = S) rows \<Longrightarrow> s < S \<Longrightarrow>
   sum_axis0 S rows ! s = wrap64 (\<Sum>row\<leftarrow>rows. row ! s)"
  by (simp add: sum_axis0_def length_column_sums column_sums_nth)

lemma list_all_select_rows:
  "list_all P rows \<Longrightarrow> list_all P (select_rows sel rows)"
  by (auto simp: select_rows_def list_all_iff dest: set_zip_rightD)

lemma sum_list_filter_fst:
  "(\<Sum>p\<leftarrow>filter fst zs. f (snd p)) = (\<Sum>p\<leftarrow>zs. if fst p then f (snd p) else 0)"
  by (induction zs) simp_all

lemma sum_list_select_rows:
  assumes len: "length names = length rows"
  shows "(\<Sum>row\<leftarrow>select_rows (map P names) rows. f row)
     = (\<Sum>m\<leftarrow>[0..<length rows]. if P (names ! m) then f (rows ! m) else 0)"
proof -
  let ?zs = "zip (map P names) rows"
  have "(\<Sum>row\<leftarrow>select_rows (map P names) rows. f row)
          = (\<Sum>p\<leftarrow>?zs. if fst p then f (snd p) else 0)"
    by (simp add: select_rows_def o_def sum_list_filter_fst)
  also have "\<dots> = (\<Sum>m\<leftarrow>[0..<length ?zs]. if fst (?zs ! m) then f (snd (?zs ! m)) else 0)"
    by (subst (1) map_nth [symmetric]) (simp add: o_def del: map_nth)
  also have "\<dots> = (\<Sum>m\<leftarrow>[0..<length rows]. if P (names ! m) then f (rows ! m) else 0)"
    using len by (intro arg_cong [where f = sum_list] map_cong) auto
  finally show ?thesis .
qed

text \<open>A sum of \<open>M\<close> terms between 0 and \<open>C\<close> lies between 0 and \<open>M * C\<close>.\<close>

lemma sum_upt_bounds:
  fixes g :: "nat \<Rightarrow> int"
  assumes "\<And>m. m < M \<Longrightarrow> 0 \<le> g m \<and> g m \<le> C"
  shows "0 \<le> (\<Sum>m\<leftarrow>[0..<M]. g m) \<and> (\<Sum>m\<leftarrow>[0..<M]. g m) \<le> int M * C"
proof
  show "0 \<le> (\<Sum>m\<leftarrow>[0..<M]. g m)"
    by (rule sum_list_nonneg) (use assms in auto)
  have "(\<Sum>m\<leftarrow>[0..<M]. g m) \<le> (\<Sum>m\<leftarrow>[0..<M]. C)"
    by (rule sum_list_mono) (use assms in auto)
  then show "(\<Sum>m\<leftarrow>[0..<M]. g m) \<le> int M * C"
    by (simp add: sum_list_triv)
qed

text \<open>
  An entry of a row of the table, when the entries of the two arrays are between 0 and
  \<open>B\<close> and the matches few enough for the sums to stay below \<open>2 ^ 53\<close>: nothing wraps
  and nothing is rounded.
\<close>

lemma team_row_nth:
  assumes len: "length (away_team r) = length (home_team r)"
    and H: "shaped (length (home_team r)) (n_samples r) H"
    and A: "shaped (length (home_team r)) (n_samples r) A"
    and s: "s < n_samples r"
    and bH: "\<And>m. m < length (home_team r) \<Longrightarrow> 0 \<le> H ! m ! s \<and> H ! m ! s \<le> B"
    and bA: "\<And>m. m < length (home_team r) \<Longrightarrow> 0 \<le> A ! m ! s \<and> A ! m ! s \<le> B"
    and small: "2 * int (length (home_team r)) * B < 2 ^ 53"
  shows "team_row r H A team ! s
           = (\<Sum>m\<leftarrow>[0..<length (home_team r)].
                (if home_team r ! m = team then H ! m ! s else 0)
              + (if away_team r ! m = team then A ! m ! s else 0))"
    (is "_ = ?total")
proof -
  let ?M = "length (home_team r)" and ?S = "n_samples r"
  let ?hsel = "map (\<lambda>t. t = team) (home_team r)"
  let ?asel = "map (\<lambda>t. t = team) (away_team r)"
  let ?h = "\<Sum>m\<leftarrow>[0..<?M]. if home_team r ! m = team then H ! m ! s else 0"
  let ?a = "\<Sum>m\<leftarrow>[0..<?M]. if away_team r ! m = team then A ! m ! s else 0"
  have allH: "list_all (\<lambda>row. length row = ?S) H" and lenH: "length H = ?M"
    and allA: "list_all (\<lambda>row. length row = ?S) A" and lenA: "length A = ?M"
    using H A by (simp_all add: shaped_def)
  have B0: "0 \<le> B" if "m < ?M" for m
    using bH [OF that] by linarith
  have bh: "0 \<le> ?h \<and> ?h \<le> int ?M * B"
    by (rule sum_upt_bounds) (use bH B0 in auto)
  have ba: "0 \<le> ?a \<and> ?a \<le> int ?M * B"
    by (rule sum_upt_bounds) (use bA B0 in auto)
  have small': "2 * (int ?M * B) < 2 ^ 53"
    using small by (simp add: mult.assoc)
  have pow: "(2::int) ^ 53 \<le> 2 ^ 63"
    by simp
  have "sum_axis0 ?S (select_rows ?hsel H) ! s = wrap64 ?h"
    using allH lenH s by (simp add: sum_axis0_nth list_all_select_rows sum_list_select_rows)
  also have "wrap64 ?h = ?h"
    by (rule wrap64_id) (use bh ba small' pow in linarith)+
  finally have h: "sum_axis0 ?S (select_rows ?hsel H) ! s = ?h" .
  have "sum_axis0 ?S (select_rows ?asel A) ! s = wrap64 ?a"
    using allA lenA len s by (simp add: sum_axis0_nth list_all_select_rows sum_list_select_rows)
  also have "wrap64 ?a = ?a"
    by (rule wrap64_id) (use bh ba small' pow in linarith)+
  finally have a: "sum_axis0 ?S (select_rows ?asel A) ! s = ?a" .
  have "team_row r H A team ! s
          = float64_of_int (wrap64 (sum_axis0 ?S (select_rows ?hsel H) ! s
                                    + sum_axis0 ?S (select_rows ?asel A) ! s))"
    using allH allA s
    by (simp add: team_row_def length_sum_axis0 list_all_select_rows)
  also have "\<dots> = float64_of_int (wrap64 (?h + ?a))"
    by (simp only: h a)
  also have "wrap64 (?h + ?a) = ?h + ?a"
    by (rule wrap64_id) (use bh ba small' pow in linarith)+
  also have "float64_of_int (?h + ?a) = ?h + ?a"
    by (rule float64_id) (use bh ba small' pow in linarith)
  also have "?h + ?a = ?total"
    by (simp add: sum_list_addf)
  finally show ?thesis .
qed

lemma length_team_row:
  assumes "shaped (length (home_team r)) (n_samples r) H"
    and "shaped (length (away_team r)) (n_samples r) A"
  shows "length (team_row r H A team) = n_samples r"
  using assms by (simp add: team_row_def shaped_def length_sum_axis0 list_all_select_rows)

lemma home_pts_nth:
  assumes hs: "shaped n S hs" and as: "shaped n S as" and m: "m < n" and s: "s < S"
  shows "assign_where (elementwise2 (=) hs as) (1::int)
           (elementwise2 (\<lambda>h a. 3 * of_bool (h > a)) hs as) ! m ! s
         = match_points (hs ! m ! s) (as ! m ! s)"
proof -
  let ?d = "elementwise2 (=) hs as"
  let ?p = "elementwise2 (\<lambda>h a. (3::int) * of_bool (h > a)) hs as"
  have d: "shaped n S ?d" and p: "shaped n S ?p"
    using hs as by (simp_all add: shaped_elementwise2)
  have "assign_where ?d 1 ?p ! m ! s = (if ?d ! m ! s then 1 else ?p ! m ! s)"
    unfolding assign_where_def by (rule elementwise2_nth [OF d p m s])
  also have "?d ! m ! s = (hs ! m ! s = as ! m ! s)"
    by (rule elementwise2_nth [OF hs as m s])
  also have "?p ! m ! s = 3 * of_bool (hs ! m ! s > as ! m ! s)"
    by (rule elementwise2_nth [OF hs as m s])
  finally show ?thesis
    by (simp add: match_points_def)
qed

lemma away_pts_nth:
  assumes hs: "shaped n S hs" and as: "shaped n S as" and m: "m < n" and s: "s < S"
  shows "assign_where (elementwise2 (=) hs as) (1::int)
           (elementwise2 (\<lambda>h a. 3 * of_bool (h < a)) hs as) ! m ! s
         = match_points (as ! m ! s) (hs ! m ! s)"
proof -
  let ?d = "elementwise2 (=) hs as"
  let ?p = "elementwise2 (\<lambda>h a. (3::int) * of_bool (h < a)) hs as"
  have d: "shaped n S ?d" and p: "shaped n S ?p"
    using hs as by (simp_all add: shaped_elementwise2)
  have "assign_where ?d 1 ?p ! m ! s = (if ?d ! m ! s then 1 else ?p ! m ! s)"
    unfolding assign_where_def by (rule elementwise2_nth [OF d p m s])
  also have "?d ! m ! s = (hs ! m ! s = as ! m ! s)"
    by (rule elementwise2_nth [OF hs as m s])
  also have "?p ! m ! s = 3 * of_bool (hs ! m ! s < as ! m ! s)"
    by (rule elementwise2_nth [OF hs as m s])
  finally show ?thesis
    by (auto simp add: match_points_def)
qed

lemma match_points_bounds: "0 \<le> match_points x y \<and> match_points x y \<le> 3"
  by (simp add: match_points_def)

lemma team_total_cong:
  assumes "\<And>m. m < length (home_team r) \<Longrightarrow>
             H ! m ! s = f (home_score r ! m ! s) (away_score r ! m ! s)"
    and "\<And>m. m < length (home_team r) \<Longrightarrow>
             A ! m ! s = f (away_score r ! m ! s) (home_score r ! m ! s)"
  shows "(\<Sum>m\<leftarrow>[0..<length (home_team r)].
            (if home_team r ! m = team then H ! m ! s else 0)
          + (if away_team r ! m = team then A ! m ! s else 0))
         = team_total r f team s"
  unfolding team_total_def
  by (intro arg_cong [where f = sum_list] map_cong) (simp_all add: assms)

lemma team_total_bounds:
  assumes "\<And>m. m < length (home_team r) \<Longrightarrow>
             0 \<le> f (home_score r ! m ! s) (away_score r ! m ! s)
             \<and> f (home_score r ! m ! s) (away_score r ! m ! s) \<le> B"
    and "\<And>m. m < length (home_team r) \<Longrightarrow>
             0 \<le> f (away_score r ! m ! s) (home_score r ! m ! s)
             \<and> f (away_score r ! m ! s) (home_score r ! m ! s) \<le> B"
  shows "0 \<le> team_total r f team s
     \<and> team_total r f team s \<le> 2 * int (length (home_team r)) * B"
proof -
  let ?x = "\<lambda>m. f (home_score r ! m ! s) (away_score r ! m ! s)"
  let ?y = "\<lambda>m. f (away_score r ! m ! s) (home_score r ! m ! s)"
  have "0 \<le> (if home_team r ! m = team then ?x m else 0) + (if away_team r ! m = team then ?y m else 0)
      \<and> (if home_team r ! m = team then ?x m else 0) + (if away_team r ! m = team then ?y m else 0)
          \<le> 2 * B"
    if "m < length (home_team r)" for m
    using assms(1) [OF that] assms(2) [OF that] by (simp; linarith)
  then have "0 \<le> team_total r f team s
      \<and> team_total r f team s \<le> int (length (home_team r)) * (2 * B)"
    unfolding team_total_def by (rule sum_upt_bounds)
  then show ?thesis by simp
qed

lemma bounded_scores_nth:
  assumes "bounded_scores B r" and "wf_results r" and "m < length (home_team r)"
    and "s < n_samples r"
  shows "0 \<le> home_score r ! m ! s \<and> home_score r ! m ! s \<le> B
     \<and> 0 \<le> away_score r ! m ! s \<and> away_score r ! m ! s \<le> B"
  using assms by (simp add: bounded_scores_def wf_results_def shaped_def list_all_length)

text \<open>
  C4. For stored results whose scores lie between 0 and a bound \<open>B\<close>, with matches few
  enough for \<open>2 * M * max 3 B\<close> to stay below \<open>2 ^ 53\<close> (so that no \<^verbatim>\<open>int64\<close> sum
  wraps and no entry of the \<^verbatim>\<open>float64\<close> table is rounded), \<^verbatim>\<open>calc_table\<close> succeeds
  and writes a table in which, for every team \<open>i\<close> of the roster and every sample \<open>s\<close>,
  the points are the sum over the stored matches of 3 for a win, 1 for a draw and 0 for
  a loss, decided by comparing the two scores of that sample, counted for the matches the
  team played at home and for those it played away; goals for and goals against are the
  sums of its own and of the other side's scores over the same matches, and the goal
  difference is their difference.
\<close>

theorem calc_table_sums:
  assumes res: "results g = Some r" and wf: "wf_results r"
    and bounded: "bounded_scores B r"
    and small: "2 * int (length (home_team r)) * max 3 B < 2 ^ 53"
    and i: "i < length (teams g)" and s: "s < n_samples r"
  shows "\<exists>t. calc_table g = (None, g\<lparr>table := Some t\<rparr>)
           \<and> points t ! i ! s = team_total r match_points (teams g ! i) s
           \<and> goals_for t ! i ! s = team_total r (\<lambda>own other. own) (teams g ! i) s
           \<and> goals_against t ! i ! s = team_total r (\<lambda>own other. other) (teams g ! i) s
           \<and> goal_difference t ! i ! s = goals_for t ! i ! s - goals_against t ! i ! s"
proof -
  let ?M = "length (home_team r)" and ?S = "n_samples r" and ?B = "max 3 B"
  let ?hs = "home_score r" and ?as = "away_score r"
  let ?hp = "assign_where (elementwise2 (=) ?hs ?as) (1::int)
               (elementwise2 (\<lambda>h a. 3 * of_bool (h > a)) ?hs ?as)"
  let ?ap = "assign_where (elementwise2 (=) ?hs ?as) (1::int)
               (elementwise2 (\<lambda>h a. 3 * of_bool (h < a)) ?hs ?as)"
  let ?pts = "map (team_row r ?hp ?ap) (teams g)"
  let ?gf = "map (team_row r ?hs ?as) (teams g)"
  let ?ga = "map (team_row r ?as ?hs) (teams g)"
  let ?t = "\<lparr>points = ?pts, goals_for = ?gf, goals_against = ?ga,
             goal_difference = elementwise2 (\<lambda>x y. float64_of_int (x - y)) ?gf ?ga\<rparr>"
  let ?team = "teams g ! i"
  from wf have len: "length (away_team r) = ?M"
    and shs: "shaped ?M ?S ?hs" and sas: "shaped ?M ?S ?as"
    by (simp_all add: wf_results_def)
  have shp: "shaped ?M ?S ?hp" and sap: "shaped ?M ?S ?ap"
    using shs sas by (simp_all add: shaped_assign_where shaped_elementwise2)
  have sc: "0 \<le> ?hs ! m ! s \<and> ?hs ! m ! s \<le> ?B \<and> 0 \<le> ?as ! m ! s \<and> ?as ! m ! s \<le> ?B"
    if "m < ?M" for m
    using bounded_scores_nth [OF bounded wf that s] by (simp add: le_max_iff_disj)
  have hp: "?hp ! m ! s = match_points (?hs ! m ! s) (?as ! m ! s)"
    and ap: "?ap ! m ! s = match_points (?as ! m ! s) (?hs ! m ! s)" if "m < ?M" for m
    using that by (simp_all add: home_pts_nth [OF shs sas _ s] away_pts_nth [OF shs sas _ s])
  have pb: "0 \<le> match_points x y \<and> match_points x y \<le> ?B" for x y
    using match_points_bounds [of x y] by (simp add: le_max_iff_disj)
  have run: "calc_table g = (None, g\<lparr>table := Some ?t\<rparr>)"
    by (simp add: calc_table_def res Let_def)
  have bhp: "0 \<le> ?hp ! m ! s \<and> ?hp ! m ! s \<le> ?B"
    and bap: "0 \<le> ?ap ! m ! s \<and> ?ap ! m ! s \<le> ?B" if "m < ?M" for m
    using that pb by (simp_all add: hp ap)
  have bhs: "0 \<le> ?hs ! m ! s \<and> ?hs ! m ! s \<le> ?B"
    and bas: "0 \<le> ?as ! m ! s \<and> ?as ! m ! s \<le> ?B" if "m < ?M" for m
    using sc [OF that] by simp_all
  have "team_row r ?hp ?ap ?team ! s
          = (\<Sum>m\<leftarrow>[0..<?M]. (if home_team r ! m = ?team then ?hp ! m ! s else 0)
                            + (if away_team r ! m = ?team then ?ap ! m ! s else 0))"
    by (rule team_row_nth [OF len shp sap s bhp bap small])
  also have "\<dots> = team_total r match_points ?team s"
    by (rule team_total_cong) (simp_all add: hp ap)
  finally have pts: "points ?t ! i ! s = team_total r match_points ?team s"
    using i by simp
  have "team_row r ?hs ?as ?team ! s
          = (\<Sum>m\<leftarrow>[0..<?M]. (if home_team r ! m = ?team then ?hs ! m ! s else 0)
                            + (if away_team r ! m = ?team then ?as ! m ! s else 0))"
    by (rule team_row_nth [OF len shs sas s bhs bas small])
  also have "\<dots> = team_total r (\<lambda>own other. own) ?team s"
    by (rule team_total_cong) simp_all
  finally have gf: "goals_for ?t ! i ! s = team_total r (\<lambda>own other. own) ?team s"
    using i by simp
  have "team_row r ?as ?hs ?team ! s
          = (\<Sum>m\<leftarrow>[0..<?M]. (if home_team r ! m = ?team then ?as ! m ! s else 0)
                            + (if away_team r ! m = ?team then ?hs ! m ! s else 0))"
    by (rule team_row_nth [OF len sas shs s bas bhs small])
  also have "\<dots> = team_total r (\<lambda>own other. other) ?team s"
    by (rule team_total_cong) simp_all
  finally have ga: "goals_against ?t ! i ! s = team_total r (\<lambda>own other. other) ?team s"
    using i by simp
  have bgf: "0 \<le> goals_for ?t ! i ! s \<and> goals_for ?t ! i ! s \<le> 2 * int ?M * ?B"
    unfolding gf by (rule team_total_bounds) (use sc in auto)
  have bga: "0 \<le> goals_against ?t ! i ! s \<and> goals_against ?t ! i ! s \<le> 2 * int ?M * ?B"
    unfolding ga by (rule team_total_bounds) (use sc in auto)
  have sgf: "shaped (length (teams g)) ?S ?gf" and sga: "shaped (length (teams g)) ?S ?ga"
    using len shs sas by (simp_all add: shaped_def list_all_iff length_team_row)
  have "goal_difference ?t ! i ! s
          = float64_of_int (goals_for ?t ! i ! s - goals_against ?t ! i ! s)"
    using elementwise2_nth [OF sgf sga i s, of "\<lambda>x y. float64_of_int (x - y)"] by simp
  also have "\<dots> = goals_for ?t ! i ! s - goals_against ?t ! i ! s"
    by (rule float64_id) (use bgf bga small in \<open>simp add: mult.assoc\<close>, linarith)
  finally have gd: "goal_difference ?t ! i ! s = goals_for ?t ! i ! s - goals_against ?t ! i ! s" .
  from run pts gf ga gd show ?thesis by blast
qed

lemma calc_table_example:
  "calc_table example_group = (None, example_group\<lparr>table := Some example_table\<rparr>)"
  by (simp add: calc_table_def example_group_def example_results_def example_table_def Group_def
      team_row_def sum_axis0_def select_rows_def assign_where_def elementwise2_def Let_def
      wrap64_def float64_of_int_def)

theorem calc_table_sums_witness:
  "results example_group = Some example_results \<and> wf_results example_results
   \<and> bounded_scores 1 example_results
   \<and> 2 * int (length (home_team example_results)) * max 3 1 < 2 ^ 53
   \<and> 0 < length (teams example_group) \<and> 0 < n_samples example_results
   \<and> (\<exists>t. calc_table example_group = (None, example_group\<lparr>table := Some t\<rparr>)
         \<and> points t ! 0 ! 0 = 6 \<and> goals_for t ! 0 ! 0 = 2 \<and> goals_against t ! 0 ! 0 = 1
         \<and> goal_difference t ! 0 ! 0 = 1)"
proof -
  have r: "results example_group = Some example_results"
    by (simp add: example_group_def Group_def)
  have wf: "wf_results example_results"
    by (simp add: wf_results_def example_results_def shaped_def)
  have b: "bounded_scores 1 example_results"
    by (simp add: bounded_scores_def example_results_def)
  have sm: "2 * int (length (home_team example_results)) * max 3 1 < 2 ^ 53"
    by (simp add: example_results_def)
  have i: "0 < length (teams example_group)"
    by (simp add: example_group_def Group_def)
  have s: "0 < n_samples example_results"
    by (simp add: example_results_def)
  have up: "[0..<6] = [0, 1, 2, 3, 4, 5]"
    by (simp add: upt_rec)
  have pts: "team_total example_results match_points (teams example_group ! 0) 0 = 6"
    by (simp add: team_total_def match_points_def example_results_def example_group_def
        Group_def up)
  have gf: "team_total example_results (\<lambda>own other. own) (teams example_group ! 0) 0 = 2"
    by (simp add: team_total_def example_results_def example_group_def Group_def up)
  have ga: "team_total example_results (\<lambda>own other. other) (teams example_group ! 0) 0 = 1"
    by (simp add: team_total_def example_results_def example_group_def Group_def up)
  from calc_table_sums [OF r wf b sm i s] r wf b sm i s show ?thesis
    by (auto simp: pts gf ga)
qed

section \<open>The default standings\<close>

lemma mset_fold_argsort: "mset (fold argsort_stable keys p) = mset p"
  by (induction keys arbitrary: p) (simp_all add: argsort_stable_def)

lemma mset_lexsort: "mset (lexsort keys n) = mset [0..<n]"
  by (simp add: lexsort_def mset_fold_argsort)

lemma length_lexsort: "length (lexsort keys n) = n"
  using mset_eq_length [OF mset_lexsort, of keys n] by simp

lemma set_lexsort: "set (lexsort keys n) = {0..<n}"
  using mset_eq_setD [OF mset_lexsort, of keys n] by simp

lemma distinct_lexsort: "distinct (lexsort keys n)"
  using mset_eq_imp_distinct_iff [OF mset_lexsort, of keys n] by simp

lemma lexsort_snoc: "lexsort (keys @ [key]) n = argsort_stable key (lexsort keys n)"
  by (simp add: lexsort_def)

lemma bij_betw_rank:
  "bij_betw (\<lambda>i. int n - int i) {0..<n} {1..int n}"
  by (rule bij_betw_byWitness [where f' = "\<lambda>p. nat (int n - p)"]) auto

lemma bij_betw_lexsort:
  "bij_betw (\<lambda>k. int n - int (lexsort keys n ! k)) {0..<n} {1..int n}"
proof -
  have "bij_betw ((!) (lexsort keys n)) {0..<n} {0..<n}"
    by (rule bij_betw_nth) (auto simp: distinct_lexsort length_lexsort set_lexsort)
  from bij_betw_trans [OF this bij_betw_rank] show ?thesis
    by (simp add: o_def)
qed

lemma ncols_shaped: "shaped n S m \<Longrightarrow> 0 < n \<Longrightarrow> ncols m = S"
  by (cases m) (simp_all add: shaped_def ncols_def)

lemma default_standings_nth:
  assumes "shaped n S (points t)" and "k < n" and "s < S"
  shows "default_standings nt t rnd ! k ! s
           = int nt - int (lexsort (standings_keys t rnd s) n ! k)"
proof -
  from assms have n: "length (points t) = n" and S: "ncols (points t) = S"
    by (auto simp: shaped_def ncols_shaped)
  show ?thesis
    using assms(2,3)
    by (simp add: default_standings_def lexsort_axis0_def standings_keys_def n S Let_def)
qed

lemma shaped_default_standings:
  assumes "shaped n S (points t)" and "0 < n"
  shows "shaped n S (default_standings nt t rnd)"
proof -
  from assms have n: "length (points t) = n" and S: "ncols (points t) = S"
    by (auto simp: shaped_def ncols_shaped)
  show ?thesis
    by (simp add: default_standings_def lexsort_axis0_def n S Let_def shaped_def list_all_iff)
qed

lemma calc_standings_default:
  "table g = Some t \<Longrightarrow>
   calc_standings g False rnd
     = (None, g\<lparr>standings := Some (default_standings (length (teams g)) t rnd)\<rparr>)"
  by (simp add: calc_standings_def)

text \<open>
  C2. For a group of four teams with a computed table, the default policy succeeds and,
  in every sample \<open>s\<close>, the standings column is a bijection between the four teams
  (the indices \<open>0..3\<close> of the roster) and the four positions \<open>1..4\<close>: every position
  is taken by exactly one team.
\<close>

theorem calc_standings_bijection:
  assumes tab: "table g = Some t" and four: "length (teams g) = 4"
    and shape: "shaped 4 S (points t)" and s: "s < S"
  shows "\<exists>st. calc_standings g False rnd = (None, g\<lparr>standings := Some st\<rparr>)
            \<and> shaped 4 S st
            \<and> bij_betw (\<lambda>k. st ! k ! s) {0..<4} {1..4}"
proof -
  let ?st = "default_standings (length (teams g)) t rnd"
  let ?rank = "\<lambda>k. int 4 - int (lexsort (standings_keys t rnd s) 4 ! k)"
  have "bij_betw ?rank {0..<4} {1..int 4}"
    by (rule bij_betw_lexsort)
  moreover have "?st ! k ! s = ?rank k" if "k \<in> {0..<4}" for k
    using that default_standings_nth [OF shape _ s, of k] four by simp
  then have "bij_betw (\<lambda>k. ?st ! k ! s) {0..<4} {1..int 4} = bij_betw ?rank {0..<4} {1..int 4}"
    by (rule bij_betw_cong)
  ultimately have "bij_betw (\<lambda>k. ?st ! k ! s) {0..<4} {1..4}"
    by simp
  moreover have "shaped 4 S ?st"
    by (rule shaped_default_standings [OF shape]) simp
  ultimately show ?thesis
    using calc_standings_default [OF tab] by blast
qed

theorem calc_standings_bijection_witness:
  "table (ranked_group example_table) = Some example_table
   \<and> length (teams (ranked_group example_table)) = 4
   \<and> shaped 4 1 (points example_table)
   \<and> (\<exists>st. calc_standings (ranked_group example_table) False zero_draw
               = (None, (ranked_group example_table)\<lparr>standings := Some st\<rparr>)
            \<and> shaped 4 1 st \<and> bij_betw (\<lambda>k. st ! k ! 0) {0..<4} {1..4})"
proof -
  have t: "table (ranked_group example_table) = Some example_table"
    by (simp add: ranked_group_def Group_def)
  have n: "length (teams (ranked_group example_table)) = 4"
    by (simp add: ranked_group_def Group_def)
  have sh: "shaped 4 1 (points example_table)"
    by (simp add: example_table_def shaped_def)
  have s: "(0::nat) < 1"
    by simp
  from calc_standings_bijection [OF t n sh s] t n sh show ?thesis
    by simp
qed

lemma lexsort_primary_decreasing:
  fixes key :: "rat list"
  assumes "key ! 0 > key ! 1" and "key ! 1 > key ! 2" and "key ! 2 > key ! 3"
  shows "lexsort (keys @ [key]) 4 = [3, 2, 1, 0]"
proof -
  have "sort_key (\<lambda>i. key ! i) (lexsort keys 4) = [3, 2, 1, 0]"
  proof (rule sort_key_inj_key_eq)
    have "[0..<4] = [0, 1, 2, 3]"
      by (simp add: upt_rec)
    then show "mset (lexsort keys 4) = mset [3, 2, 1, 0]"
      by (simp add: mset_lexsort)
    have "set (lexsort keys 4) = {0, 1, 2, 3}"
      by (auto simp: set_lexsort)
    with assms show "inj_on (\<lambda>i. key ! i) (set (lexsort keys 4))"
      by (auto simp: inj_on_def)
    from assms show "sorted (map (\<lambda>i. key ! i) [3, 2, 1, 0])"
      by simp
  qed
  then show ?thesis
    by (simp add: lexsort_snoc argsort_stable_def)
qed

text \<open>
  When the points of sample \<open>s\<close> fall strictly along the roster (as in 9, 6, 3, 0), the
  default standings of that sample are 1, 2, 3, 4 along the roster, whatever the goal
  difference, the goals for and the random draw are. This is the order of the roster in
  which the sorting permutation is its own inverse.
\<close>

lemma calc_standings_points_order:
  assumes tab: "table g = Some t" and four: "length (teams g) = 4"
    and shape: "shaped 4 S (points t)" and s: "s < S"
    and dec: "points t ! 0 ! s > points t ! 1 ! s" "points t ! 1 ! s > points t ! 2 ! s"
             "points t ! 2 ! s > points t ! 3 ! s"
  shows "\<exists>st. calc_standings g False rnd = (None, g\<lparr>standings := Some st\<rparr>)
            \<and> shaped 4 S st \<and> column st s = [1, 2, 3, 4]"
proof -
  let ?st = "default_standings (length (teams g)) t rnd"
  let ?key = "column (as_float (points t)) s"
  have len: "length (points t) = 4"
    using shape by (simp add: shaped_def)
  have key: "?key ! k = of_int (points t ! k ! s)" if "k < 4" for k
    using that shape s by (simp add: column_def as_float_def shaped_def list_all_length)
  have "standings_keys t rnd s
          = map (\<lambda>key. column key s)
              [random_array rnd (length (points t)) (ncols (points t)), as_float (goals_for t),
               as_float (goal_difference t)] @ [?key]"
    by (simp add: standings_keys_def)
  moreover have "?key ! 0 > ?key ! 1" "?key ! 1 > ?key ! 2" "?key ! 2 > ?key ! 3"
    using dec by (simp_all add: key)
  ultimately have perm: "lexsort (standings_keys t rnd s) 4 = [3, 2, 1, 0]"
    by (simp only: lexsort_primary_decreasing)
  have st: "shaped 4 S ?st"
    by (rule shaped_default_standings [OF shape]) simp
  have "column ?st s = [1, 2, 3, 4]"
  proof (rule nth_equalityI)
    show "length (column ?st s) = length [1, 2, 3, 4 :: int]"
      using st by (simp add: column_def shaped_def)
  next
    fix k assume "k < length (column ?st s)"
    then have k: "k < 4"
      using st by (simp add: column_def shaped_def)
    then have "column ?st s ! k = ?st ! k ! s"
      using st by (simp add: column_def shaped_def)
    also have "\<dots> = 4 - int ([3, 2, 1, 0] ! k)"
      using default_standings_nth [OF shape k s, of "length (teams g)" rnd] four perm by simp
    also have "\<dots> = [1, 2, 3, 4] ! k"
      using k by (auto simp: less_Suc_eq numeral_eq_Suc)
    finally show "column ?st s ! k = [1, 2, 3, 4] ! k" .
  qed
  with st calc_standings_default [OF tab] show ?thesis by blast
qed

lemma calc_standings_points_order_example:
  "table (ranked_group decreasing_table) = Some decreasing_table
   \<and> length (teams (ranked_group decreasing_table)) = 4
   \<and> shaped 4 1 (points decreasing_table)
   \<and> points decreasing_table ! 0 ! 0 > points decreasing_table ! 1 ! 0
   \<and> points decreasing_table ! 1 ! 0 > points decreasing_table ! 2 ! 0
   \<and> points decreasing_table ! 2 ! 0 > points decreasing_table ! 3 ! 0
   \<and> (\<exists>st. calc_standings (ranked_group decreasing_table) False zero_draw
               = (None, (ranked_group decreasing_table)\<lparr>standings := Some st\<rparr>)
            \<and> shaped 4 1 st \<and> column st 0 = [1, 2, 3, 4])"
proof -
  have t: "table (ranked_group decreasing_table) = Some decreasing_table"
    by (simp add: ranked_group_def Group_def)
  have n: "length (teams (ranked_group decreasing_table)) = 4"
    by (simp add: ranked_group_def Group_def)
  have sh: "shaped 4 1 (points decreasing_table)"
    by (simp add: decreasing_table_def shaped_def)
  have s: "(0::nat) < 1"
    by simp
  have d1: "points decreasing_table ! 0 ! 0 > points decreasing_table ! 1 ! 0"
    and d2: "points decreasing_table ! 1 ! 0 > points decreasing_table ! 2 ! 0"
    and d3: "points decreasing_table ! 2 ! 0 > points decreasing_table ! 3 ! 0"
    by (simp_all add: decreasing_table_def)
  from calc_standings_points_order [OF t n sh s d1 d2 d3] t n sh d1 d2 d3 show ?thesis
    by simp
qed

section \<open>The qualifiers\<close>

lemma filter_eq_singleton:
  "distinct xs \<Longrightarrow> x \<in> set xs \<Longrightarrow> filter (\<lambda>y. y = x) xs = [x]"
proof (induction xs)
  case Nil
  then show ?case by simp
next
  case (Cons a xs)
  show ?case
  proof (cases "a = x")
    case True
    with Cons.prems have "x \<notin> set xs" by simp
    then have "filter (\<lambda>y. y = x) xs = []"
      by (auto simp: filter_empty_conv)
    with True show ?thesis by simp
  next
    case False
    with Cons show ?thesis by simp
  qed
qed

lemma filter_unique:
  assumes "distinct xs" and "x \<in> set xs" and "\<And>y. y \<in> set xs \<Longrightarrow> P y = (y = x)"
  shows "filter P xs = [x]"
proof -
  have "filter P xs = filter (\<lambda>y. y = x) xs"
    by (rule filter_cong) (simp_all add: assms(3))
  then show ?thesis
    by (simp add: filter_eq_singleton assms(1,2))
qed

lemma filter_bij_betw:
  assumes "bij_betw f {0..<n} B" and "v \<in> B"
  shows "\<exists>k<n. filter (\<lambda>k. f k = v) [0..<n] = [k] \<and> f k = v"
proof -
  from assms have "v \<in> f ` {0..<n}"
    by (simp add: bij_betw_def)
  then obtain k where k: "k < n" "f k = v"
    by auto
  from assms(1) have inj: "inj_on f {0..<n}"
    by (simp add: bij_betw_def)
  have "(f y = v) = (y = k)" if "y \<in> set [0..<n]" for y
  proof
    assume "f y = v"
    with k have "f y = f k" by simp
    with inj that k(1) show "y = k"
      by (simp add: inj_on_def)
  next
    assume "y = k"
    with k show "f y = v" by simp
  qed
  then have "filter (\<lambda>k. f k = v) [0..<n] = [k]"
    using k(1) by (intro filter_unique) simp_all
  with k show ?thesis by blast
qed

lemma concat_singletons:
  assumes "\<And>s. s < n \<Longrightarrow> \<exists>k. F s = [k] \<and> Q s k"
  shows "length (concat (map F [0..<n])) = n \<and> (\<forall>s<n. Q s (concat (map F [0..<n]) ! s))"
  using assms
proof (induction n)
  case 0
  then show ?case by simp
next
  case (Suc n)
  then have IH: "length (concat (map F [0..<n])) = n"
      "\<And>s. s < n \<Longrightarrow> Q s (concat (map F [0..<n]) ! s)"
    by auto
  from Suc.prems [of n] obtain k where k: "F n = [k]" "Q n k"
    by auto
  show ?case
    using IH k by (auto simp: nth_append less_Suc_eq)
qed

lemma nonzero_T_positions:
  assumes shape: "shaped n S st" and n: "0 < n"
    and bij: "\<And>s. s < S \<Longrightarrow> bij_betw (\<lambda>k. st ! k ! s) {0..<n} B" and v: "v \<in> B"
  shows "length (nonzero_T st v) = S
     \<and> (\<forall>s<S. nonzero_T st v ! s < n \<and> st ! (nonzero_T st v ! s) ! s = v)"
proof -
  have len: "length st = n" and cols: "ncols st = S"
    using shape n by (simp_all add: shaped_def ncols_shaped)
  have "\<exists>k. filter (\<lambda>k. st ! k ! s = v) [0..<n] = [k] \<and> (k < n \<and> st ! k ! s = v)"
    if "s < S" for s
    using filter_bij_betw [OF bij [OF that] v] by auto
  from concat_singletons [of S "\<lambda>s. filter (\<lambda>k. st ! k ! s = v) [0..<n]"
      "\<lambda>s k. k < n \<and> st ! k ! s = v", OF this]
  show ?thesis
    by (simp add: nonzero_T_def len cols)
qed

text \<open>
  What \<^verbatim>\<open>get_qualifiers\<close> does guarantee for a group of four distinct teams whose
  table is computed: one team per sample in each of the two vectors, both of the roster
  and different from each other.
\<close>

lemma get_qualifiers_distinct_members:
  assumes tab: "table g = Some t" and none: "standings g = None"
    and four: "length (teams g) = 4" and dist: "distinct (teams g)"
    and shape: "shaped 4 S (points t)"
  shows "\<exists>first second g'. get_qualifiers g rnd = (Inr (first, second), g')
           \<and> length first = S \<and> length second = S
           \<and> (\<forall>s<S. first ! s \<in> set (teams g) \<and> second ! s \<in> set (teams g)
                    \<and> first ! s \<noteq> second ! s)"
proof -
  let ?st = "default_standings (length (teams g)) t rnd"
  let ?g = "g\<lparr>standings := Some ?st\<rparr>"
  let ?i1 = "nonzero_T ?st 1" and ?i2 = "nonzero_T ?st 2"
  have st: "shaped 4 S ?st"
    by (rule shaped_default_standings [OF shape]) simp
  have bij: "bij_betw (\<lambda>k. ?st ! k ! s) {0..<4} {1..4}" if "s < S" for s
  proof -
    let ?rank = "\<lambda>k. int 4 - int (lexsort (standings_keys t rnd s) 4 ! k)"
    have "?st ! k ! s = ?rank k" if "k \<in> {0..<4}" for k
      using that default_standings_nth [OF shape _ \<open>s < S\<close>, of k] four by simp
    then have "bij_betw (\<lambda>k. ?st ! k ! s) {0..<4} {1..int 4} = bij_betw ?rank {0..<4} {1..int 4}"
      by (rule bij_betw_cong)
    with bij_betw_lexsort [of 4 "standings_keys t rnd s"] show ?thesis
      by simp
  qed
  have p1: "length ?i1 = S \<and> (\<forall>s<S. ?i1 ! s < 4 \<and> ?st ! (?i1 ! s) ! s = 1)"
    by (rule nonzero_T_positions [OF st _ bij]) simp_all
  have p2: "length ?i2 = S \<and> (\<forall>s<S. ?i2 ! s < 4 \<and> ?st ! (?i2 ! s) ! s = 2)"
    by (rule nonzero_T_positions [OF st _ bij]) simp_all
  have in1: "list_all (\<lambda>i. i < length (teams g)) ?i1"
    and in2: "list_all (\<lambda>i. i < length (teams g)) ?i2"
    using p1 p2 four by (auto simp: list_all_length)
  have run: "get_qualifiers g rnd
      = (Inr (map (\<lambda>i. teams g ! i) ?i1, map (\<lambda>i. teams g ! i) ?i2), ?g)"
    using in1 in2
    by (simp add: get_qualifiers_def none calc_standings_default [OF tab] take_indices_def)
  have "teams g ! (?i1 ! s) \<noteq> teams g ! (?i2 ! s)" if "s < S" for s
  proof -
    from p1 p2 that have "?i1 ! s \<noteq> ?i2 ! s"
      by force
    with p1 p2 that four dist show ?thesis
      by (simp add: nth_eq_iff_index_eq)
  qed
  with p1 p2 four run show ?thesis
    by (intro exI [of _ "map (\<lambda>i. teams g ! i) ?i1"] exI [of _ "map (\<lambda>i. teams g ! i) ?i2"]
        exI [of _ ?g]) simp
qed

lemma lexsort_primary_injective:
  fixes key :: "rat list"
  assumes "mset ys = mset [0..<n]" and "inj_on (\<lambda>i. key ! i) {0..<n}"
    and "sorted (map (\<lambda>i. key ! i) ys)"
  shows "lexsort (keys @ [key]) n = ys"
proof -
  have "sort_key (\<lambda>i. key ! i) (lexsort keys n) = ys"
    by (rule sort_key_inj_key_eq) (simp_all add: assms mset_lexsort set_lexsort)
  then show ?thesis
    by (simp add: lexsort_snoc argsort_stable_def)
qed

lemma example_order: "lexsort (standings_keys example_table rnd 0) 4 = [1, 2, 0, 3]"
proof -
  let ?key = "[6, 0, 3, 9] :: rat list"
  have up: "[0..<4] = [0, 1, 2, 3]"
    by (simp add: upt_rec)
  have "column (as_float (points example_table)) 0 = ?key"
    by (simp add: example_table_def column_def as_float_def)
  then have "standings_keys example_table rnd 0
          = map (\<lambda>key. column key 0)
              [random_array rnd (length (points example_table)) (ncols (points example_table)),
               as_float (goals_for example_table),
               as_float (goal_difference example_table)] @ [?key]"
    by (simp add: standings_keys_def)
  moreover have "lexsort (keys @ [?key]) 4 = [1, 2, 0, 3]" for keys
  proof (rule lexsort_primary_injective)
    show "mset [1, 2, 0, 3] = mset [0..<4]"
      by (simp add: up)
    have "{0..<4} = {0, 1, 2, 3 :: nat}"
      by auto
    then show "inj_on (\<lambda>i. ?key ! i) {0..<4}"
      by (simp add: inj_on_def)
    show "sorted (map (\<lambda>i. ?key ! i) [1, 2, 0, 3])"
      by simp
  qed
  ultimately show ?thesis
    by (simp only:)
qed

lemma example_standings:
  "default_standings 4 example_table rnd = [[3], [2], [4], [1]]"
proof -
  have sh: "shaped 4 1 (points example_table)"
    by (simp add: example_table_def shaped_def)
  have nth: "default_standings 4 example_table rnd ! k ! 0 = 4 - int ([1, 2, 0, 3] ! k)"
    if "k < 4" for k
    using default_standings_nth [OF sh that, of 0 4 rnd] by (simp add: example_order)
  have "shaped 4 1 (default_standings 4 example_table rnd)"
    by (rule shaped_default_standings [OF sh]) simp
  then obtain a b c d where st: "default_standings 4 example_table rnd = [[a], [b], [c], [d]]"
    by (auto simp: shaped_def length_Suc_conv numeral_eq_Suc)
  with nth [of 0] nth [of 1] nth [of 2] nth [of 3] show ?thesis
    by simp
qed

text \<open>
  C8. The default standings at the example table, for every random draw. The points are
  free of ties: Netherlands 9, Qatar 6, Senegal 3, Ecuador 0, so that the points alone
  rank the roster (Qatar, Ecuador, Senegal, Netherlands) 2nd, 4th, 3rd, 1st. The standings
  stored are 3, 2, 4, 1: Ecuador, without a point, is second and Qatar, with 6, third.
\<close>

theorem calc_standings_example:
  "calc_standings (ranked_group example_table) False rnd
     = (None, (ranked_group example_table)\<lparr>standings := Some [[3], [2], [4], [1]]\<rparr>)
   \<and> points example_table = [[6], [0], [3], [9]]"
proof -
  have "table (ranked_group example_table) = Some example_table"
    and "length (teams (ranked_group example_table)) = 4"
    by (simp_all add: ranked_group_def Group_def)
  then have "calc_standings (ranked_group example_table) False rnd
     = (None, (ranked_group example_table)\<lparr>standings := Some [[3], [2], [4], [1]]\<rparr>)"
    by (simp add: calc_standings_default example_standings)
  then show ?thesis
    by (simp add: example_table_def)
qed

lemma get_qualifiers_example_value:
  "get_qualifiers example_group rnd
     = (Inr ([''Netherlands''], [''Ecuador'']),
        example_group\<lparr>table := Some example_table, standings := Some [[3], [2], [4], [1]]\<rparr>)"
proof -
  let ?g = "example_group\<lparr>table := Some example_table\<rparr>"
  have len: "length (teams ?g) = 4" and tb: "table example_group = None"
    and st: "standings example_group = None"
    by (simp_all add: example_group_def Group_def)
  have "calc_standings example_group False rnd
          = (None, ?g\<lparr>standings := Some (default_standings (length (teams ?g)) example_table rnd)\<rparr>)"
    by (simp add: calc_standings_def tb calc_table_example)
  then have "calc_standings example_group False rnd
          = (None, ?g\<lparr>standings := Some [[3], [2], [4], [1]]\<rparr>)"
    by (simp only: len example_standings)
  moreover note st
  moreover have "nonzero_T [[3], [2], [4], [1]] 1 = [3]" "nonzero_T [[3], [2], [4], [1]] 2 = [1]"
    by (simp_all add: nonzero_T_def ncols_def upt_rec)
  ultimately show ?thesis
    by (simp add: get_qualifiers_def take_indices_def example_group_def Group_def)
qed

text \<open>
  C1. \<^verbatim>\<open>get_qualifiers\<close> at the example group, for every random draw. The table has
  Netherlands on 9 points, Qatar on 6, Senegal on 3 and Ecuador on 0, so the teams ranked
  first and second are Netherlands and Qatar; the second team returned is Ecuador. The
  array that \<^verbatim>\<open>np.lexsort\<close> returns lists team indices by ascending rank, and
  \<^verbatim>\<open>calc_standings\<close> stores \<open>n\<close> minus it as if it listed the rank of each team.
\<close>

theorem get_qualifiers_example:
  "\<exists>g'. get_qualifiers example_group rnd = (Inr ([''Netherlands''], [''Ecuador'']), g')
         \<and> map_option points (table g') = Some [[6], [0], [3], [9]]"
  by (simp add: get_qualifiers_example_value example_table_def)

section \<open>The head-to-head policy is switched off\<close>

text \<open>
  C7 (amended). \<^verbatim>\<open>calc_standings\<close> with \<^verbatim>\<open>head_to_head=True\<close> always raises and
  never changes the standings: the fault is NotImplementedError for every group that has a
  table or stored results; a group with neither fails earlier, in \<^verbatim>\<open>calc_table\<close>,
  with a TypeError.
\<close>

theorem calc_standings_head_to_head:
  "fst (calc_standings g True rnd)
     = Some (if table g = None \<and> results g = None then TypeError else NotImplementedError)
   \<and> standings (snd (calc_standings g True rnd)) = standings g"
  by (cases "table g"; cases "results g")
     (simp_all add: calc_standings_def calc_table_def Let_def)

theorem calc_standings_head_to_head_witness:
  "fst (calc_standings example_group True zero_draw) = Some NotImplementedError
   \<and> standings (snd (calc_standings example_group True zero_draw)) = None"
  using calc_standings_head_to_head [of example_group zero_draw]
  by (simp add: example_group_def Group_def)

text \<open>
  C7 as stated fails for a group that was just created: the fault is not the
  "not implemented" one.
\<close>

theorem calc_standings_head_to_head_counterexample:
  "fst (calc_standings (Group ''A'' [''Qatar'', ''Ecuador'', ''Senegal'', ''Netherlands'']) True
          zero_draw) \<noteq> Some NotImplementedError"
  by (simp add: calc_standings_def calc_table_def Group_def)

section \<open>The cascade\<close>

text \<open>
  C6. \<^verbatim>\<open>fill_standings_position\<close> on a position that is already filled, that is, one
  whose entry passes the test \<^verbatim>\<open>if self.standings[position]\<close> of the method (a team
  name, not \<^verbatim>\<open>None\<close> and not empty), raises RuntimeError and leaves the standings as
  they are.
\<close>

theorem fill_standings_position_filled:
  assumes "standings_dict st position = Some v" and "truthy v"
  shows "fill_standings_position team position st = (Some RuntimeError, st)"
  using assms by (simp add: fill_standings_position_def)

theorem fill_standings_position_filled_witness:
  "standings_dict (example_cascade\<lparr>standings_dict := [''1st'' \<mapsto> Some ''Netherlands'']\<rparr>) ''1st''
      = Some (Some ''Netherlands'')
   \<and> truthy (Some ''Netherlands'')
   \<and> fill_standings_position ''Senegal'' ''1st''
        (example_cascade\<lparr>standings_dict := [''1st'' \<mapsto> Some ''Netherlands'']\<rparr>)
      = (Some RuntimeError, example_cascade\<lparr>standings_dict := [''1st'' \<mapsto> Some ''Netherlands'']\<rparr>)"
proof -
  let ?st = "example_cascade\<lparr>standings_dict := [''1st'' \<mapsto> Some ''Netherlands'']\<rparr>"
  have d: "standings_dict ?st ''1st'' = Some (Some ''Netherlands'')"
    by simp
  have t: "truthy (Some ''Netherlands'')"
    by (simp add: truthy_def)
  from fill_standings_position_filled [OF d t, of "''Senegal''"] d t show ?thesis
    by simp
qed

lemma returns_Some [simp]: "returns (Some out)"
  by (simp add: returns_def)

lemma returns_andthen:
  assumes "returns x" and "\<And>st. returns (f st)"
  shows "returns (andthen x f)"
  using assms by (cases "(x, f)" rule: andthen.cases) (simp_all add: returns_def)

lemma returns_if:
  "(c \<Longrightarrow> returns a) \<Longrightarrow> (\<not> c \<Longrightarrow> returns b) \<Longrightarrow> returns (if c then a else b)"
  by simp

lemma returns_fill: "returns (fill team position st)"
  by (simp add: fill_def split: sum.split)

lemma returns_fill_in_order: "returns (fill_in_order teams_to_sort i positions st)"
  by (induction positions arbitrary: i st) (simp_all add: returns_andthen returns_fill)

lemma returns_two_teams:
  assumes "\<And>ts ps st. returns (self ts ps new_metric st)"
  shows "returns (two_teams self team_list score positions new_metric st)"
  unfolding two_teams_def by (intro returns_if returns_andthen returns_fill assms)

lemma returns_three_teams:
  assumes "\<And>ts ps st. returns (self ts ps new_metric st)"
  shows "returns (three_teams self team_list score positions new_metric st)"
  unfolding three_teams_def by (intro returns_if returns_andthen returns_fill assms)

lemma returns_four_teams:
  assumes "\<And>ts ps st. returns (self ts ps new_metric st)"
  shows "returns (four_teams self team_list score positions new_metric st)"
  unfolding four_teams_def by (intro returns_if returns_andthen returns_fill assms)

lemma metric_rank_simps:
  "metric_rank ''points'' = 4" "metric_rank ''goal_difference'' = 3"
  "metric_rank ''goals_for'' = 2" "metric_rank ''head-to-head'' = 1" "metric_rank ''random'' = 0"
  by (simp_all add: metric_rank_def metrics_def)

lemma returns_by_team_count:
  assumes "\<And>ts ps st. returns (self ts ps new_metric st)"
  shows "returns (by_team_count self team_scores ps0 new_metric st)"
  using assms
  by (simp add: by_team_count_def Let_def returns_two_teams returns_three_teams returns_four_teams)

lemma next_metric:
  assumes "index_of metrics metric = Some i" and "metric \<noteq> ''random''"
    and "py_nth metrics (Suc i) = Inr new_metric"
  shows "metric_rank new_metric < metric_rank metric"
proof -
  from assms(1) have "i < 5 \<and> metrics ! i = metric"
    by (auto simp: metrics_def split: if_splits)
  then consider "i = 0" | "i = 1" | "i = 2" | "i = 3" | "i = 4"
    by linarith
  then show ?thesis
  proof cases
    case 1 with assms show ?thesis
      by (auto simp: metrics_def py_nth_def metric_rank_simps split: if_splits)
  next
    case 2 with assms show ?thesis
      by (auto simp: metrics_def py_nth_def metric_rank_simps split: if_splits)
  next
    case 3 with assms show ?thesis
      by (auto simp: metrics_def py_nth_def metric_rank_simps split: if_splits)
  next
    case 4 with assms show ?thesis
      by (auto simp: metrics_def py_nth_def metric_rank_simps split: if_splits)
  next
    case 5 with assms show ?thesis
      by (auto simp: metrics_def py_nth_def metric_rank_simps split: if_splits)
  qed
qed

lemma returns_body:
  assumes self: "\<And>ts ps m st. metric_rank m < metric_rank metric \<Longrightarrow> returns (self ts ps m st)"
  shows "returns (set_positions_body sort_teams_by shuffle self ts0 ps0 metric st)"
proof (cases "metric = ''random''")
  case True
  then show ?thesis
    by (simp add: set_positions_body_def returns_fill_in_order)
next
  case not_random: False
  show ?thesis
  proof (cases "metric = ''head-to-head''")
    case True
    have rnd: "returns (self ts ps ''random'' st)" for ts ps st
      by (rule self) (simp add: True metric_rank_simps)
    show ?thesis
      unfolding set_positions_body_def
      by (simp add: True rnd returns_andthen returns_fill split: sum.split option.split prod.split)
  next
    case False
    have "returns (by_team_count self team_scores ps0 new_metric st)"
      if "index_of metrics metric = Some i" and "py_nth metrics (Suc i) = Inr new_metric"
      for i team_scores new_metric
      by (rule returns_by_team_count, rule self, rule next_metric [OF that(1) not_random that(2)])
    then show ?thesis
      unfolding set_positions_body_def
      by (simp add: not_random False split: sum.split option.split)
  qed
qed

text \<open>Every recursive call is made with a later metric, so the depth is bounded.\<close>

lemma set_positions_returns:
  "metric_rank metric < fuel \<Longrightarrow>
   \<exists>out. set_positions_using_metric fuel sort_teams_by shuffle teams_to_sort positions_to_fill
            metric st = Some out"
proof (induction fuel arbitrary: metric teams_to_sort positions_to_fill st)
  case 0
  then show ?case by simp
next
  case (Suc fuel)
  have "returns (set_positions_using_metric fuel sort_teams_by shuffle ts ps m st')"
    if "metric_rank m < metric_rank metric" for ts ps m st'
    using Suc.IH [of m ts ps st'] that Suc.prems by (simp add: returns_def)
  then have "returns (set_positions_body sort_teams_by shuffle
      (set_positions_using_metric fuel sort_teams_by shuffle) teams_to_sort positions_to_fill metric st)"
    by (rule returns_body)
  then show ?case
    by (simp add: returns_def)
qed

text \<open>What a call that returns normally at depth 1 has filled.\<close>

lemma andthen_normal:
  assumes "andthen x f = Some (None, st')"
  obtains st1 where "x = Some (None, st1)" and "f st1 = Some (None, st')"
  using assms by (cases "(x, f)" rule: andthen.cases) auto

lemma fill_standings_position_normal:
  assumes "fill_standings_position team position st = (None, st')"
  shows "assigned st' position \<and> (\<forall>q. assigned st q \<longrightarrow> assigned st' q)"
  using assms
  by (auto simp: fill_standings_position_def assigned_def split: option.splits if_splits)

lemma fill_normal:
  assumes "fill team position st = Some (None, st')"
  obtains t p where "team = Inr t" and "position = Inr p" and "assigned st' p"
    and "\<And>q. assigned st q \<Longrightarrow> assigned st' q"
proof -
  from assms obtain t p where tp: "team = Inr t" "position = Inr p"
    and run: "fill_standings_position t p st = (None, st')"
    by (auto simp: fill_def split: sum.splits)
  from fill_standings_position_normal [OF run] tp that show thesis
    by blast
qed

lemma py_nth_Inr: "py_nth xs i = Inr x \<Longrightarrow> i < length xs \<and> x = xs ! i"
  by (auto simp: py_nth_def split: if_splits)

lemma fill_in_order_normal:
  "fill_in_order ts i positions st = Some (None, st') \<Longrightarrow>
   list_all (assigned st') positions \<and> (\<forall>q. assigned st q \<longrightarrow> assigned st' q)"
proof (induction positions arbitrary: i st)
  case Nil
  then show ?case by simp
next
  case (Cons pos rest)
  from Cons.prems obtain st1 where f: "fill (py_nth ts i) (Inr pos) st = Some (None, st1)"
    and r: "fill_in_order ts (Suc i) rest st1 = Some (None, st')"
    by (auto elim: andthen_normal)
  from f have a: "assigned st1 pos" and k: "\<And>q. assigned st q \<Longrightarrow> assigned st1 q"
    by (auto elim!: fill_normal)
  from Cons.IH [OF r] a k show ?case
    by auto
qed


lemma fill_given:
  assumes "fill team (py_nth positions j) st = Some (None, st')"
  shows "j < length positions \<and> assigned st' (positions ! j)
     \<and> (\<forall>q. assigned st q \<longrightarrow> assigned st' q)"
  using assms by (auto elim!: fill_normal dest: py_nth_Inr)

lemma fill_named:
  assumes "fill team (Inr p) st = Some (None, st')"
  shows "assigned st' p \<and> (\<forall>q. assigned st q \<longrightarrow> assigned st' q)"
  using assms by (auto elim!: fill_normal)

lemma take_2: "1 < length xs \<Longrightarrow> take 2 xs = [xs ! 0, xs ! 1]"
  by (cases xs; cases "tl xs") auto

lemma take_3: "2 < length xs \<Longrightarrow> take 3 xs = [xs ! 0, xs ! 1, xs ! 2]"
  by (cases xs; cases "tl xs"; cases "tl (tl xs)") (auto simp: numeral_3_eq_3)

lemma two_teams_normal:
  assumes "two_teams (\<lambda>ts ps m st. None) team_list score positions new_metric st = Some (None, st')"
  shows "2 \<le> length positions \<and> list_all (assigned st') (take 2 positions)"
proof -
  from assms obtain st1
    where f0: "fill (py_nth team_list 0) (py_nth positions 0) st = Some (None, st1)"
      and f1: "fill (py_nth team_list 1) (py_nth positions 1) st1 = Some (None, st')"
    by (auto simp: two_teams_def split: if_splits elim: andthen_normal)
  from fill_given [OF f0] fill_given [OF f1] show ?thesis
    by (simp add: take_2)
qed

lemma three_teams_normal:
  assumes "three_teams (\<lambda>ts ps m st. None) team_list score positions new_metric st = Some (None, st')"
  shows "3 \<le> length positions \<and> list_all (assigned st') (take 3 positions)"
proof -
  from assms have "andthen (fill (py_nth team_list 0) (py_nth positions 0) st) (\<lambda>st.
        andthen (fill (py_nth team_list 1) (py_nth positions 1) st)
          (fill (py_nth team_list 2) (py_nth positions 2))) = Some (None, st')"
    by (auto simp: three_teams_def split: if_splits elim: andthen_normal)
  then obtain st1 st2
    where f0: "fill (py_nth team_list 0) (py_nth positions 0) st = Some (None, st1)"
      and f1: "fill (py_nth team_list 1) (py_nth positions 1) st1 = Some (None, st2)"
      and f2: "fill (py_nth team_list 2) (py_nth positions 2) st2 = Some (None, st')"
    by (auto elim!: andthen_normal)
  from fill_given [OF f0] fill_given [OF f1] fill_given [OF f2] show ?thesis
    by (simp add: take_3)
qed

lemma four_teams_normal:
  assumes "four_teams (\<lambda>ts ps m st. None) team_list score positions new_metric st = Some (None, st')"
  shows "list_all (assigned st') [''1st'', ''2nd'', ''3rd'', ''4th'']"
proof -
  from assms have "andthen (fill (py_nth team_list 0) (Inr ''1st'') st) (\<lambda>st.
        andthen (fill (py_nth team_list 1) (Inr ''2nd'') st) (\<lambda>st.
        andthen (fill (py_nth team_list 2) (Inr ''3rd'') st)
          (fill (py_nth team_list 3) (Inr ''4th'')))) = Some (None, st')"
    by (auto simp: four_teams_def split: if_splits elim: andthen_normal)
  then obtain st1 st2 st3
    where f0: "fill (py_nth team_list 0) (Inr ''1st'') st = Some (None, st1)"
      and f1: "fill (py_nth team_list 1) (Inr ''2nd'') st1 = Some (None, st2)"
      and f2: "fill (py_nth team_list 2) (Inr ''3rd'') st2 = Some (None, st3)"
      and f3: "fill (py_nth team_list 3) (Inr ''4th'') st3 = Some (None, st')"
    by (auto elim!: andthen_normal)
  from fill_named [OF f0] fill_named [OF f1] fill_named [OF f2] fill_named [OF f3]
  show ?thesis
    by simp
qed

lemma by_team_count_normal:
  assumes "by_team_count (\<lambda>ts ps m st. None) team_scores positions new_metric st = Some (None, st')"
  shows "if length team_scores = 2 \<or> length team_scores = 3 then
           length team_scores \<le> length positions
           \<and> list_all (assigned st') (take (length team_scores) positions)
         else if length team_scores = 4 then list_all (assigned st') [''1st'', ''2nd'', ''3rd'', ''4th'']
         else st' = st"
  using assms two_teams_normal three_teams_normal four_teams_normal
  by (auto simp: by_team_count_def Let_def split: if_splits)

lemma head_to_head_normal:
  assumes run: "set_positions_body sort_teams_by shuffle (\<lambda>ts ps m st. None) ts0 ps0
                  ''head-to-head'' st = Some (None, st')"
  shows "list_all (assigned st') ps0"
proof -
  from run have len: "length ts0 = length ps0" and le: "\<not> 2 < length ts0"
    by (auto simp: set_positions_body_def split: if_splits)
  from run len le obtain team_A team_B team_1 team_2
    where "py_nth ts0 0 = Inr team_A" "py_nth ts0 1 = Inr team_B"
      and fills: "andthen (fill (Inr team_1) (py_nth ps0 0) st) (fill (Inr team_2) (py_nth ps0 1))
                    = Some (None, st')"
    by (auto simp: set_positions_body_def split: if_splits sum.splits prod.splits option.splits)
  then have two: "length ps0 = 2"
    using len le by (auto dest!: py_nth_Inr)
  from fills obtain st1
    where f0: "fill (Inr team_1) (py_nth ps0 0) st = Some (None, st1)"
      and f1: "fill (Inr team_2) (py_nth ps0 1) st1 = Some (None, st')"
    by (auto elim!: andthen_normal)
  from two have ps: "ps0 = [ps0 ! 0, ps0 ! 1]"
    using take_2 [of ps0] by simp
  from fill_given [OF f0] fill_given [OF f1] have "list_all (assigned st') [ps0 ! 0, ps0 ! 1]"
    by simp
  with ps show ?thesis by simp
qed

lemma body_normal:
  assumes run: "set_positions_body sort_teams_by shuffle (\<lambda>ts ps m st. None) ts0 ps0 metric st
                  = Some (None, st')"
  shows "filled_after sort_teams_by ts0 ps0 metric st st'"
proof (cases "metric = ''random''")
  case True
  with run have "fill_in_order (shuffle (shuffles st) ts0) 0 ps0 (st\<lparr>shuffles := Suc (shuffles st)\<rparr>)
      = Some (None, st')"
    by (auto simp: set_positions_body_def split: if_splits)
  from fill_in_order_normal [OF this] True show ?thesis
    by (simp add: filled_after_def)
next
  case not_random: False
  show ?thesis
  proof (cases "metric = ''head-to-head''")
    case True
    with run head_to_head_normal show ?thesis
      by (simp add: filled_after_def)
  next
    case False
    from run not_random False obtain team_dict team_scores new_metric
      where d: "dict_comprehension (table_dict st) ts0 [] = Inr team_dict"
        and srt: "sort_teams_by team_dict metric = Inr team_scores"
        and cnt: "by_team_count (\<lambda>ts ps m st. None) team_scores ps0 new_metric st = Some (None, st')"
      by (auto simp: set_positions_body_def split: if_splits sum.splits option.splits)
    from d srt have "sorted_count sort_teams_by ts0 metric st = Some (length team_scores)"
      by (simp add: sorted_count_def)
    with by_team_count_normal [OF cnt] not_random False show ?thesis
      by (simp add: filled_after_def split: if_splits)
  qed
qed

lemma example_table_entry:
  "table_dict example_cascade ''Qatar''
     = Some [''points'' \<mapsto> 6, ''goal_difference'' \<mapsto> 1, ''goals_for'' \<mapsto> 2]"
  by (simp add: example_cascade_def)

lemma example_first_place: "standings_dict example_cascade ''1st'' = Some None"
  by (simp add: example_cascade_def)

lemma one_team_example:
  "set_positions_using_metric 1 example_sorter example_shuffle [''Qatar''] [''1st''] ''points''
     example_cascade = Some (None, example_cascade)"
  by (simp add: set_positions_body_def example_table_entry example_sorter_def metrics_def
      py_nth_def by_team_count_def)

lemma one_team_random_example:
  "set_positions_using_metric 1 example_sorter example_shuffle [''Qatar''] [''1st''] ''random''
     example_cascade
     = Some (None, example_cascade
          \<lparr>standings_dict := (standings_dict example_cascade)(''1st'' \<mapsto> Some ''Qatar''),
           shuffles := 1\<rparr>)"
  by (simp add: set_positions_body_def example_shuffle_def py_nth_def fill_def
      fill_standings_position_def truthy_def example_first_place)
     (simp add: example_cascade_def)

text \<open>
  C5 (amended). Every call of \<^verbatim>\<open>set_positions_using_metric\<close> returns (normally or
  with a fault), whatever the teams, the positions, the state, the sorting helper and the
  shuffles are: a recursion depth of one more than the number of metrics that follow
  \<open>metric\<close> in the list is enough, because every recursive call is made with a metric
  that comes strictly later; "random" makes no recursive call (depth 1), and no call goes
  deeper than the five metrics of the list. A call that returns normally without having
  made a recursive call (one that returns so at depth 1) has filled one position for
  every team: all the given positions under "random" and "head-to-head"; under a
  sorting metric the first two or three given positions when two or three teams come
  back sorted, the positions "1st" to "4th" when four do, and nothing at all, the state
  being as before, for any other number of teams.
\<close>

theorem set_positions_using_metric_outcome:
  "(metric_rank metric < fuel \<longrightarrow>
      (\<exists>out. set_positions_using_metric fuel sort_teams_by shuffle teams_to_sort positions_to_fill
                metric st = Some out))
   \<and> (set_positions_using_metric 1 sort_teams_by shuffle teams_to_sort positions_to_fill metric st
         = Some (None, st') \<longrightarrow>
       filled_after sort_teams_by teams_to_sort positions_to_fill metric st st')"
  using set_positions_returns [of metric fuel sort_teams_by shuffle teams_to_sort positions_to_fill st]
    body_normal [of sort_teams_by shuffle teams_to_sort positions_to_fill metric st st']
  by simp

theorem set_positions_using_metric_outcome_witness:
  "metric_rank ''points'' < 5
   \<and> (\<exists>out. set_positions_using_metric 5 example_sorter example_shuffle
               [''Qatar'', ''Ecuador'', ''Senegal'', ''Netherlands'']
               [''1st'', ''2nd'', ''3rd'', ''4th''] ''points'' example_cascade = Some out)
   \<and> (\<exists>st'. set_positions_using_metric 1 example_sorter example_shuffle [''Qatar''] [''1st'']
               ''random'' example_cascade = Some (None, st')
            \<and> filled_after example_sorter [''Qatar''] [''1st''] ''random'' example_cascade st'
            \<and> assigned st' ''1st'')"
proof -
  have r: "metric_rank ''points'' < 5"
    by (simp add: metric_rank_simps)
  let ?st' = "example_cascade
          \<lparr>standings_dict := (standings_dict example_cascade)(''1st'' \<mapsto> Some ''Qatar''),
           shuffles := 1\<rparr>"
  have a: "assigned ?st' ''1st''"
    by (simp add: assigned_def)
  from set_positions_using_metric_outcome [of "''points''" 5 example_sorter example_shuffle
      "[''Qatar'', ''Ecuador'', ''Senegal'', ''Netherlands'']" "[''1st'', ''2nd'', ''3rd'', ''4th'']"
      example_cascade] r
  have first: "\<exists>out. set_positions_using_metric 5 example_sorter example_shuffle
               [''Qatar'', ''Ecuador'', ''Senegal'', ''Netherlands'']
               [''1st'', ''2nd'', ''3rd'', ''4th''] ''points'' example_cascade = Some out"
    by blast
  from set_positions_using_metric_outcome [of "''random''" 1 example_sorter example_shuffle "[''Qatar'']" "[''1st'']"
      example_cascade ?st'] one_team_random_example
  have "filled_after example_sorter [''Qatar''] [''1st''] ''random'' example_cascade ?st'"
    by blast
  with r first a one_team_random_example show ?thesis
    by blast
qed

text \<open>
  C5 as stated fails for one team and one position at the metric "points": the call
  returns normally at depth 1, so without a recursive call, and the position is not
  filled.
\<close>

theorem set_positions_using_metric_counterexample:
  "set_positions_using_metric 1 example_sorter example_shuffle [''Qatar''] [''1st''] ''points''
     example_cascade = Some (None, example_cascade)
   \<and> \<not> assigned example_cascade ''1st''"
  using one_team_example by (simp add: assigned_def example_first_place)

section \<open>Entering a result by hand\<close>

lemma add_result_rows_state:
  "snd (add_result_rows find_group rows team_1 team_2 score_1 score_2 stage t) = t"
  by (induction rows) (auto simp: Group_add_result_def split: sum.split option.split)

lemma add_result_rows_no_match:
  "\<not> list_ex (is_group_fixture stage team_1 team_2) rows \<Longrightarrow>
   fst (add_result_rows find_group rows team_1 team_2 score_1 score_2 stage t) = None"
  by (induction rows) (auto simp: is_group_fixture_def)

lemma add_result_rows_match:
  "list_ex (is_group_fixture stage team_1 team_2) rows \<Longrightarrow>
   fst (add_result_rows find_group rows team_1 team_2 score_1 score_2 stage t) \<noteq> None"
  by (induction rows)
     (auto simp: is_group_fixture_def Group_add_result_def split: sum.split option.split)

lemma add_result_rows_attribute_error:
  "list_ex (is_group_fixture stage team_1 team_2) rows \<Longrightarrow>
   find_group team_1 (teams_df t) = Inr group_name \<Longrightarrow> map_of (groups t) group_name \<noteq> None \<Longrightarrow>
   fst (add_result_rows find_group rows team_1 team_2 score_1 score_2 stage t) = Some AttributeError"
  by (induction rows)
     (auto simp: is_group_fixture_def Group_add_result_def split: sum.split option.split)

text \<open>
  C10. \<^verbatim>\<open>Tournament.add_result\<close> never changes the tournament or any of its
  groups. Without a fixture of the stage "Group" between the two teams it returns
  normally. With one it raises: an AttributeError whenever \<^verbatim>\<open>find_group\<close> names a
  group of the tournament, because the method \<^verbatim>\<open>add_result\<close> it then looks up does
  not exist in \<^verbatim>\<open>Group\<close>.
\<close>

theorem add_result_never_records:
  "snd (add_result find_group t team_1 team_2 score_1 score_2 stage) = t
   \<and> (\<not> list_ex (is_group_fixture stage team_1 team_2) (fixtures_df t) \<longrightarrow>
        fst (add_result find_group t team_1 team_2 score_1 score_2 stage) = None)
   \<and> (list_ex (is_group_fixture stage team_1 team_2) (fixtures_df t) \<longrightarrow>
        fst (add_result find_group t team_1 team_2 score_1 score_2 stage) \<noteq> None
        \<and> (\<forall>group_name. find_group team_1 (teams_df t) = Inr group_name
               \<and> map_of (groups t) group_name \<noteq> None \<longrightarrow>
             fst (add_result find_group t team_1 team_2 score_1 score_2 stage)
               = Some AttributeError))"
  unfolding add_result_def
  by (intro conjI impI allI add_result_rows_state add_result_rows_no_match
      add_result_rows_match)
     (auto intro: add_result_rows_attribute_error)

theorem add_result_never_records_witness:
  "list_ex (is_group_fixture ''Group'' ''Ecuador'' ''Qatar'') (fixtures_df example_tournament)
   \<and> roster_group ''Ecuador'' (teams_df example_tournament) = Inr ''A''
   \<and> map_of (groups example_tournament) ''A'' \<noteq> None
   \<and> add_result roster_group example_tournament ''Ecuador'' ''Qatar'' 1 0 ''Group''
        = (Some AttributeError, example_tournament)
   \<and> \<not> list_ex (is_group_fixture ''Group'' ''Ecuador'' ''Senegal'') (fixtures_df example_tournament)
   \<and> add_result roster_group example_tournament ''Ecuador'' ''Senegal'' 1 0 ''Group''
        = (None, example_tournament)"
proof -
  have m: "list_ex (is_group_fixture ''Group'' ''Ecuador'' ''Qatar'') (fixtures_df example_tournament)"
    by (simp add: example_tournament_def is_group_fixture_def doubleton_eq_iff)
  have f: "roster_group ''Ecuador'' (teams_df example_tournament) = Inr ''A''"
    by (simp add: example_tournament_def roster_group_def)
  have g: "map_of (groups example_tournament) ''A'' \<noteq> None"
    by (simp add: example_tournament_def)
  have n: "\<not> list_ex (is_group_fixture ''Group'' ''Ecuador'' ''Senegal'') (fixtures_df example_tournament)"
    by (simp add: example_tournament_def is_group_fixture_def doubleton_eq_iff)
  from add_result_never_records [of roster_group example_tournament "''Ecuador''" "''Qatar''" 1 0 "''Group''"]
    add_result_never_records [of roster_group example_tournament "''Ecuador''" "''Senegal''" 1 0 "''Group''"]
    m f g n
  show ?thesis
    by (auto simp: prod_eq_iff)
qed

section \<open>The alias table over the knockout stages\<close>

lemma set_columns_frame:
  "set_columns S keys i val a = (e, a') \<Longrightarrow> key \<notin> set keys \<Longrightarrow> map_of a' key = map_of a key"
  by (induction keys arbitrary: i a)
     (auto simp: set_column_def update_conv' split: sum.splits if_splits)

lemma set_columns_names_mono:
  "set_columns S keys i val a = (e, a') \<Longrightarrow> fst ` set a \<subseteq> fst ` set a'"
proof (induction keys arbitrary: i a)
  case Nil
  then show ?case by simp
next
  case (Cons key keys)
  show ?case
  proof (cases "length (column val i) = S")
    case True
    with Cons.prems have "set_columns S keys (Suc i) val (AList.update key (column val i) a) = (e, a')"
      by (simp add: set_column_def)
    from Cons.IH [OF this] show ?thesis
      by (auto simp: dom_update)
  next
    case False
    with Cons.prems show ?thesis
      by (simp add: set_column_def)
  qed
qed

lemma set_columns_names:
  "set_columns S keys i val a = (None, a') \<Longrightarrow> fst ` set a' = fst ` set a \<union> set keys"
proof (induction keys arbitrary: i a)
  case Nil
  then show ?case by simp
next
  case (Cons key keys)
  show ?case
  proof (cases "length (column val i) = S")
    case True
    with Cons.prems have "set_columns S keys (Suc i) val (AList.update key (column val i) a) = (None, a')"
      by (simp add: set_column_def)
    from Cons.IH [OF this] show ?thesis
      by (auto simp: dom_update)
  next
    case False
    with Cons.prems show ?thesis
      by (simp add: set_column_def)
  qed
qed

lemma knockout_stage_cases:
  assumes "knockout_stage simulate_outcome stage (wc_pred, t) = (e, wc_pred', t')"
  obtains (fault) "aliases t' = aliases t" and "e \<noteq> None"
  | (assigned) val where
      "set_columns (num_samples t) (stage_keys stage t) 0 val (aliases t) = (e, aliases t')"
  using assms unfolding knockout_stage_def
  by (auto split: sum.splits prod.splits option.splits if_splits)

text \<open>
  Whatever the fixtures are, a knockout stage removes no column of the alias table and
  changes no column whose name is not the key of one of its fixtures; when it succeeds,
  the names of the columns are the earlier names and those keys.
\<close>

lemma knockout_stage_frame:
  assumes "knockout_stage simulate_outcome stage (wc_pred, t) = (e, wc_pred', t')"
  shows "fst ` set (aliases t) \<subseteq> fst ` set (aliases t')
     \<and> (\<forall>key. key \<notin> set (stage_keys stage t) \<longrightarrow> map_of (aliases t') key = map_of (aliases t) key)
     \<and> (e = None \<longrightarrow> fst ` set (aliases t') = fst ` set (aliases t) \<union> set (stage_keys stage t))"
  using assms
proof (cases rule: knockout_stage_cases)
  case fault
  then show ?thesis by auto
next
  case (assigned val)
  have mono: "fst ` set (aliases t) \<subseteq> fst ` set (aliases t')"
    by (rule set_columns_names_mono [OF assigned])
  have frame: "map_of (aliases t') key = map_of (aliases t) key"
    if "key \<notin> set (stage_keys stage t)" for key
    by (rule set_columns_frame [OF assigned that])
  have names: "fst ` set (aliases t') = fst ` set (aliases t) \<union> set (stage_keys stage t)"
    if "e = None"
    using assigned that by (simp add: set_columns_names)
  from mono frame names show ?thesis
    by blast
qed

lemma update_new_key: "map_of a key = None \<Longrightarrow> AList.update key v a = a @ [(key, v)]"
  by (induction a) (auto split: if_splits)

lemma set_columns_appends:
  assumes "set_columns S keys i val a = (e, a')" and "distinct keys"
    and "\<And>key. key \<in> set keys \<Longrightarrow> map_of a key = None"
  shows "\<exists>new. a' = a @ new \<and> map fst new = take (length new) keys
            \<and> (e = None \<longrightarrow> map fst new = keys)"
  using assms
proof (induction keys arbitrary: i a)
  case Nil
  then show ?case by simp
next
  case (Cons key keys)
  show ?case
  proof (cases "length (column val i) = S")
    case False
    with Cons.prems(1) have "a' = a" and "e \<noteq> None"
      by (auto simp: set_column_def)
    then show ?thesis by simp
  next
    case True
    let ?a1 = "a @ [(key, column val i)]"
    have up: "AList.update key (column val i) a = ?a1"
      by (rule update_new_key) (simp add: Cons.prems(3))
    with True Cons.prems(1) have run: "set_columns S keys (Suc i) val ?a1 = (e, a')"
      by (simp add: set_column_def)
    have fresh: "map_of ?a1 k = None" if "k \<in> set keys" for k
      using that Cons.prems(2,3) by (auto simp: map_add_def split: option.split)
    from Cons.prems(2) have "distinct keys" by simp
    from Cons.IH [OF run this fresh] obtain new
      where new: "a' = ?a1 @ new" "map fst new = take (length new) keys"
        "e = None \<longrightarrow> map fst new = keys"
      by blast
    show ?thesis
      using new by (intro exI [of _ "(key, column val i) # new"]) simp
  qed
qed

text \<open>
  C9. A knockout stage of a bracket, where the keys of the stage (the two slot names of
  each fixture, concatenated in order) are new: the alias table after the stage is the
  table before it followed by new columns, so that no earlier column is removed, moved
  or changed; the new columns are named by the keys, in the order of the fixtures, one
  for every fixture when the stage succeeds and for the first fixtures when it faults.
\<close>

theorem knockout_stage_appends:
  assumes run: "knockout_stage simulate_outcome stage (wc_pred, t) = (e, wc_pred', t')"
    and new: "new_keys stage t"
  shows "\<exists>new. aliases t' = aliases t @ new
            \<and> map fst new = take (length new) (stage_keys stage t)
            \<and> (e = None \<longrightarrow> map fst new = stage_keys stage t)"
  using run
proof (cases rule: knockout_stage_cases)
  case fault
  then show ?thesis by auto
next
  case (assigned val)
  from new have "distinct (stage_keys stage t)"
    and "\<And>key. key \<in> set (stage_keys stage t) \<Longrightarrow> map_of (aliases t) key = None"
    by (simp_all add: new_keys_def list_all_iff)
  from set_columns_appends [OF assigned this] show ?thesis .
qed

text \<open>
  The keys are new when they differ from each other and each is longer than every name
  of the table, as in a bracket, where the names double in length with every round.
\<close>

lemma longer_keys_are_new:
  assumes "distinct (stage_keys stage t)"
    and "\<And>key name. key \<in> set (stage_keys stage t) \<Longrightarrow> name \<in> fst ` set (aliases t) \<Longrightarrow>
           length name < length key"
  shows "new_keys stage t"
proof -
  have "map_of (aliases t) key = None" if "key \<in> set (stage_keys stage t)" for key
  proof (rule ccontr)
    assume "map_of (aliases t) key \<noteq> None"
    then have "key \<in> fst ` set (aliases t)"
      by (auto simp: map_of_eq_None_iff)
    from assms(2) [OF that this] show False by simp
  qed
  with assms(1) show ?thesis
    by (simp add: new_keys_def list_all_iff)
qed

lemma assign_qualifiers_example:
  "assign_qualifiers zero_draws (groups example_tournament) example_tournament
     = (None, qualified_tournament)"
  by (simp add: example_tournament_def qualified_tournament_def get_qualifiers_example_value
      set_column_def)
     (simp add: example_group_def Group_def)

lemma round_of_16_example:
  "knockout_stage example_predictor ''R16'' (0, qualified_tournament) = (None, 1, after_R16)"
  by (simp add: knockout_stage_def stage_fixtures_def stage_keys_def get_columns_def
      values_flatten_def reshape_def set_column_def column_def example_predictor_def
      qualified_tournament_def example_tournament_def after_R16_def)

lemma quarter_final_example:
  "knockout_stage example_predictor ''QF'' (1, after_R16)
     = (None, 2, after_R16\<lparr>aliases := [(''1A'', [''Netherlands'']), (''2A'', [''Ecuador'']),
                                        (''1A2A'', [''Ecuador''])]\<rparr>)"
  by (simp add: knockout_stage_def stage_fixtures_def stage_keys_def get_columns_def
      values_flatten_def reshape_def set_column_def column_def example_predictor_def
      qualified_tournament_def example_tournament_def after_R16_def)

lemma play_knockout_stages_example:
  "play_knockout_stages example_predictor zero_draws (0, example_tournament)
     = (None, 4, finished_tournament)"
  by (simp add: play_knockout_stages_def assign_qualifiers_example round_of_16_example
      quarter_final_example)
     (simp add: knockout_stage_def stage_fixtures_def stage_keys_def get_columns_def
      values_flatten_def reshape_def set_column_def column_def example_predictor_def
      qualified_tournament_def example_tournament_def after_R16_def finished_tournament_def)

theorem knockout_stage_appends_witness:
  "knockout_stage example_predictor ''R16'' (0, qualified_tournament) = (None, 1, after_R16)
   \<and> new_keys ''R16'' qualified_tournament
   \<and> (\<exists>new. aliases after_R16 = aliases qualified_tournament @ new
          \<and> map fst new = take (length new) (stage_keys ''R16'' qualified_tournament)
          \<and> map fst new = stage_keys ''R16'' qualified_tournament)
   \<and> stage_keys ''R16'' qualified_tournament = [''1A2A'']"
proof -
  have k: "stage_keys ''R16'' qualified_tournament = [''1A2A'']"
    by (simp add: stage_keys_def stage_fixtures_def qualified_tournament_def example_tournament_def)
  have n: "new_keys ''R16'' qualified_tournament"
    by (simp add: new_keys_def k) (simp add: qualified_tournament_def)
  have "\<exists>new. aliases after_R16 = aliases qualified_tournament @ new
          \<and> map fst new = take (length new) (stage_keys ''R16'' qualified_tournament)
          \<and> map fst new = stage_keys ''R16'' qualified_tournament"
    using knockout_stage_appends [OF round_of_16_example n] by simp
  with round_of_16_example n k show ?thesis
    by (intro conjI)
qed

text \<open>
  The example tournament is not a bracket: its quarter-final pairs the slots of a fixture
  of the round of 16, so the key "1A2A" is not new there, and the column holds
  Netherlands after the round of 16 and Ecuador after the quarter-final.
\<close>

lemma knockout_stage_rematch_example:
  "assign_qualifiers zero_draws (groups example_tournament) example_tournament
     = (None, qualified_tournament)
   \<and> knockout_stage example_predictor ''R16'' (0, qualified_tournament) = (None, 1, after_R16)
   \<and> map_of (aliases after_R16) ''1A2A'' = Some [''Netherlands'']
   \<and> map_of (aliases (snd (snd (knockout_stage example_predictor ''QF'' (1, after_R16))))) ''1A2A''
       = Some [''Ecuador'']"
proof -
  have "map_of (aliases after_R16) ''1A2A'' = Some [''Netherlands'']"
    by (simp add: after_R16_def)
  moreover have "map_of (aliases (snd (snd (knockout_stage example_predictor ''QF'' (1, after_R16)))))
      ''1A2A'' = Some [''Ecuador'']"
    unfolding quarter_final_example by simp
  ultimately show ?thesis
    using assign_qualifiers_example round_of_16_example by blast
qed

section \<open>How far a team got\<close>

text \<open>The method never answers "G", and with two samples or more it always raises.\<close>

lemma never_group_stage:
  "get_furthest_position_for_team t team_name \<noteq> Inr (Some ''G'')"
  by (simp add: get_furthest_position_for_team_def aliases_values_call_def
      split: option.split sum.split bool.split)

lemma several_samples:
  assumes "is_complete t" and "winner t = Some w" and "2 \<le> length w"
  shows "get_furthest_position_for_team t team_name = Inl ValueError"
proof -
  from assms(3) obtain a b rest where "w = a # b # rest"
    by (cases w; cases "tl w") auto
  with assms(1,2) show ?thesis
    by (simp add: get_furthest_position_for_team_def array_truth_def)
qed

text \<open>
  C3. \<^verbatim>\<open>get_furthest_position_for_team\<close> at the end of the example tournament, for
  Qatar, which is in no column of the alias table: the result is a TypeError, not "G",
  because \<^verbatim>\<open>self.aliases.values()\<close> calls an array. In the tournament of two
  samples, for Netherlands, the winner of the first sample: the result is a ValueError,
  not one answer per sample, because \<^verbatim>\<open>if self.winner == team_name\<close> takes the truth
  value of an array of two booleans.
\<close>

theorem get_furthest_position_for_team_example:
  "play_knockout_stages example_predictor zero_draws (0, example_tournament)
     = (None, 4, finished_tournament)
   \<and> list_all (\<lambda>(key, vals). ''Qatar'' \<notin> set vals) (aliases finished_tournament)
   \<and> get_furthest_position_for_team finished_tournament ''Qatar'' = Inl TypeError
   \<and> winner two_sample_tournament = Some [''Netherlands'', ''Qatar'']
   \<and> get_furthest_position_for_team two_sample_tournament ''Netherlands'' = Inl ValueError"
  by (simp add: play_knockout_stages_example)
     (simp add: get_furthest_position_for_team_def array_truth_def aliases_values_call_def
      finished_tournament_def qualified_tournament_def example_tournament_def
      two_sample_tournament_def)

end
